theory Spec2Isabelle
  imports Main "HOL-Library.Sublist" "HOL-Library.AList"
begin

section \<open>JavaScript values\<close>

text \<open>
  The vendor's responses are parsed JSON of type \<open>any\<close>.  A value is one of the JSON
  shapes, or \<open>undefined\<close> (what reading a missing property gives).  Numbers are the
  integer-valued ones; an object is the list of its own properties in enumeration order,
  the first binding of a key being the property's value.  Strings are lists of 8-bit
  code units.

  \<open>Builtin k\<close> is the member named \<open>k\<close> that a value inherits from its built-in
  prototype: a method such as \<open>toString\<close> or \<open>constructor\<close>, or the prototype
  object itself for \<open>__proto__\<close>.  It is what \<open>v[k]\<close> gives when \<open>v\<close> has no own
  property \<open>k\<close> and inherits one.  It is truthy, it is no part of a parsed response, and
  it has none of the properties the code reads from a task record (\<open>status\<close>,
  \<open>fail_code\<close>, \<open>task\<close>, \<open>item_list\<close>).
\<close>

datatype jsval =
    Undefined
  | Null
  | Bool bool
  | Num int
  | Str string
  | Arr "jsval list"
  | Obj "(string \<times> jsval) list"
  | Builtin string

text \<open>Truthiness (\<open>if (v)\<close>, \<open>!v\<close>, \<open>a || b\<close>, \<open>a && b\<close>).\<close>

fun truthy :: "jsval \<Rightarrow> bool" where
  "truthy Undefined = False"
| "truthy Null = False"
| "truthy (Bool b) = b"
| "truthy (Num n) = (n \<noteq> 0)"
| "truthy (Str s) = (s \<noteq> [])"
| "truthy (Arr xs) = True"
| "truthy (Obj kvs) = True"
| "truthy (Builtin k) = True"

fun nullish :: "jsval \<Rightarrow> bool" where
  "nullish Undefined = True"
| "nullish Null = True"
| "nullish v = False"

text \<open>\<open>a || b\<close> on values.\<close>

definition js_or :: "jsval \<Rightarrow> jsval \<Rightarrow> jsval" where
  "js_or a b = (if truthy a then a else b)"

text \<open>Decimal digits of a natural number, and the canonical array index a key denotes.\<close>

definition digit_char :: "nat \<Rightarrow> char" where
  "digit_char d = char_of (48 + d)"

function digits_of :: "nat \<Rightarrow> string" where
  "digits_of n = (if n < 10 then [digit_char n] else digits_of (n div 10) @ [digit_char (n mod 10)])"
  by pat_completeness auto
termination
  by (relation "measure id") auto

declare digits_of.simps [simp del]

definition is_digit :: "char \<Rightarrow> bool" where
  "is_digit c = ((48::nat) \<le> of_char c \<and> (of_char c :: nat) \<le> 57)"

definition digit_val :: "char \<Rightarrow> nat" where
  "digit_val c = of_char c - 48"

definition index_of_key :: "string \<Rightarrow> nat option" where
  "index_of_key k =
     (if k = [] \<or> \<not> list_all is_digit k \<or> (length k > 1 \<and> hd k = CHR ''0'') then None
      else Some (foldl (\<lambda>acc c. 10 * acc + digit_val c) 0 k))"

text \<open>
  Reading an own property \<open>v[k]\<close> of a value that is neither \<open>null\<close> nor
  \<open>undefined\<close>: a key of an object, an index or \<open>length\<close> of an array or a string.
  This is the whole read for the fixed keys of the source (\<open>status\<close>, \<open>item_list\<close>,
  \<open>image_url\<close>, ...), none of which names a member of a built-in prototype, and for
  the keys \<open>Object.keys\<close> gives, which are own.
\<close>

fun js_get :: "jsval \<Rightarrow> string \<Rightarrow> jsval" where
  "js_get (Obj kvs) k = (case map_of kvs k of Some v \<Rightarrow> v | None \<Rightarrow> Undefined)"
| "js_get (Arr xs) k =
     (if k = ''length'' then Num (int (length xs))
      else case index_of_key k of
             Some i \<Rightarrow> if i < length xs then xs ! i else Undefined
           | None \<Rightarrow> Undefined)"
| "js_get (Str s) k =
     (if k = ''length'' then Num (int (length s))
      else case index_of_key k of
             Some i \<Rightarrow> if i < length s then Str [s ! i] else Undefined
           | None \<Rightarrow> Undefined)"
| "js_get v k = Undefined"

text \<open>
  Reading \<open>v[k]\<close> under a key the caller supplies (\<open>response[historyId]\<close>): an own
  property if \<open>v\<close> has one of that name, else the member of that name \<open>v\<close> inherits
  from its built-in prototype, else \<open>undefined\<close>.  Which names a value inherits is
  decided by the runtime; \<open>inherited v k\<close> says whether \<open>v\<close> inherits a member
  \<open>k\<close>.
\<close>

fun has_own :: "jsval \<Rightarrow> string \<Rightarrow> bool" where
  "has_own (Obj kvs) k = (map_of kvs k \<noteq> None)"
| "has_own (Arr xs) k =
     (k = ''length'' \<or> (case index_of_key k of Some i \<Rightarrow> i < length xs | None \<Rightarrow> False))"
| "has_own (Str s) k =
     (k = ''length'' \<or> (case index_of_key k of Some i \<Rightarrow> i < length s | None \<Rightarrow> False))"
| "has_own v k = False"

definition js_member :: "(jsval \<Rightarrow> string \<Rightarrow> bool) \<Rightarrow> jsval \<Rightarrow> string \<Rightarrow> jsval" where
  "js_member inherited v k =
     (if has_own v k then js_get v k else if inherited v k then Builtin k else Undefined)"

text \<open>Optional chaining \<open>v?.k\<close>.\<close>

definition opt :: "jsval \<Rightarrow> string \<Rightarrow> jsval" where
  "opt v k = (if nullish v then Undefined else js_get v k)"

text \<open>\<open>s.includes(t)\<close> and \<open>s.startsWith(t)\<close>.\<close>

definition str_includes :: "string \<Rightarrow> string \<Rightarrow> bool" where
  "str_includes s t = sublist t s"

definition startsWith :: "string \<Rightarrow> string \<Rightarrow> bool" where
  "startsWith s t = prefix t s"

section \<open>Errors\<close>

text \<open>
  \<open>APIException\<close> carries the exception constant and what the message says;
  \<open>TypeError\<close> is what reading a property of \<open>null\<close> or \<open>undefined\<close>, or calling
  a method a value does not have, raises; \<open>Thrown m\<close> is an \<open>Error\<close> with message
  \<open>m\<close>, raised by a collaborator or by a route handler; \<open>ParamsInvalid\<close> is what
  \<open>request.validate\<close> raises when its predicate rejects a field (\<open>Request\<close> is a
  collaborator of the routes).  The messages of the source are Chinese; a message is
  given here by what it says.
\<close>

datatype exc_code = API_IMAGE_GENERATION_FAILED | API_REQUEST_FAILED

datatype exc_message =
    RecordIdMissing
  | ImageUploadFailed string
  | FirstFrameUploadFailed string
  | TaskNotFound string

datatype error =
    APIException exc_code exc_message
  | TypeError
  | Thrown string
  | ParamsInvalid

text \<open>\<open>error.message\<close> as the \<open>catch\<close> blocks read it.\<close>

fun message_text :: "exc_message \<Rightarrow> string" where
  "message_text RecordIdMissing = ''record id missing''"
| "message_text (ImageUploadFailed m) = ''image upload failed: '' @ m"
| "message_text (FirstFrameUploadFailed m) = ''first frame upload failed: '' @ m"
| "message_text (TaskNotFound h) = ''task not found: '' @ h"

fun error_message :: "error \<Rightarrow> string" where
  "error_message (APIException c m) = message_text m"
| "error_message TypeError = ''TypeError''"
| "error_message (Thrown m) = m"
| "error_message ParamsInvalid = ''params invalid''"

section \<open>Video duration\<close>

text \<open>
  Lines 347--383 of \<open>createVideoGenerationTask\<close>: the pair
  \<open>(durationMs, actualDuration)\<close> for the resolved model key and the requested duration.
\<close>

definition durationPolicy :: "string \<Rightarrow> int \<Rightarrow> int \<times> int" where
  "durationPolicy model duration =
     (let isVeo3 = str_includes model ''veo3'';
          isSora2 = str_includes model ''sora2'';
          is35Pro = str_includes model ''3.5_pro''
      in if isVeo3 then (8000, 8)
         else if isSora2 then
           (if duration = 12 then (12000, 12)
            else if duration = 8 then (8000, 8)
            else (4000, 4))
         else if is35Pro then
           (if duration = 12 then (12000, 12)
            else if duration = 10 then (10000, 10)
            else (5000, 5))
         else (if duration = 10 then 10000 else 5000, if duration = 10 then 10 else 5))"

section \<open>URL extraction (image-utils)\<close>

text \<open>
  \<open>s.replace(/\\u0026/g, '&')\<close>: every occurrence of the six characters backslash,
  \<open>u\<close>, \<open>0\<close>, \<open>0\<close>, \<open>2\<close>, \<open>6\<close>, found from left to right, becomes
  \<open>&\<close>.
\<close>

definition escaped_amp :: string where
  "escaped_amp = CHR 0x5C # ''u0026''"

function unescape_amp :: "string \<Rightarrow> string" where
  "unescape_amp [] = []"
| "unescape_amp (c # cs) =
     (if prefix escaped_amp (c # cs) then CHR ''&'' # unescape_amp (drop 5 cs)
      else c # unescape_amp cs)"
  by pat_completeness auto
termination
  by (relation "measure length") auto

text \<open>
  The method call \<open>v.replace(/\\u0026/g, '&')\<close> on a truthy value: only a string has
  the method.
\<close>

fun js_replace_amp :: "jsval \<Rightarrow> error + string" where
  "js_replace_amp (Str s) = Inr (unescape_amp s)"
| "js_replace_amp v = Inl TypeError"

text \<open>\<open>extractImageUrl\<close>: the \<open>large_images\<close> URL of an item, or \<open>null\<close>.\<close>

definition extractImageUrl :: "jsval \<Rightarrow> error + string option" where
  "extractImageUrl item =
     (let u = opt (opt (opt (opt item ''image'') ''large_images'') ''0'') ''image_url''
      in if truthy u then map_sum id Some (js_replace_amp u) else Inr None)"

record ImageUrlInfo =
  png :: "string option"
  webp :: "string option"
  webp_long :: "string option"
  webp_sizes :: "(string \<times> string) list"

text \<open>\<open>Object.keys\<close> of a truthy value whose \<open>typeof\<close> is \<open>'object'\<close>.\<close>

fun object_keys :: "jsval \<Rightarrow> string list" where
  "object_keys (Obj kvs) = remdups (map fst kvs)"
| "object_keys (Arr xs) = map digits_of [0..<length xs]"
| "object_keys v = []"

fun is_object :: "jsval \<Rightarrow> bool" where
  "is_object (Obj kvs) = True"
| "is_object (Arr xs) = True"
| "is_object v = False"

definition normalSizeKeys :: "string list" where
  "normalSizeKeys = [''2400'', ''1080'', ''720'', ''480'', ''360'']"

text \<open>
  The assignment \<open>info.webp_sizes[key] = u\<close> of a string to a plain object: it stores
  an own property, except under the key \<open>__proto__\<close>, where the setter inherited from
  \<open>Object.prototype\<close> ignores a string and the object stays as it is.
\<close>

definition assign_size :: "string \<Rightarrow> string \<Rightarrow> (string \<times> string) list \<Rightarrow> (string \<times> string) list" where
  "assign_size key u sizes = (if key = ''__proto__'' then sizes else AList.update key u sizes)"

text \<open>The loop over \<open>Object.keys(coverMap)\<close> that fills \<open>info.webp_sizes\<close>.\<close>

fun collect_sizes :: "jsval \<Rightarrow> string list \<Rightarrow> (string \<times> string) list \<Rightarrow> error + (string \<times> string) list" where
  "collect_sizes coverMap [] sizes = Inr sizes"
| "collect_sizes coverMap (key # keys) sizes =
     (if truthy (js_get coverMap key) then
        (case js_replace_amp (js_get coverMap key) of
           Inl err \<Rightarrow> Inl err
         | Inr u \<Rightarrow> collect_sizes coverMap keys (assign_size key u sizes))
      else collect_sizes coverMap keys sizes)"

text \<open>The loop over \<open>normalSizeKeys\<close> with its \<open>break\<close>.\<close>

fun pick_long :: "(string \<times> string) list \<Rightarrow> string list \<Rightarrow> string option" where
  "pick_long sizes [] = None"
| "pick_long sizes (sizeKey # rest) =
     (case map_of sizes sizeKey of
        Some u \<Rightarrow> if u \<noteq> [] then Some u else pick_long sizes rest
      | None \<Rightarrow> pick_long sizes rest)"

definition extractImageUrlInfo :: "jsval \<Rightarrow> error + ImageUrlInfo" where
  "extractImageUrlInfo item =
     (let rawPng = opt (opt (opt (opt item ''image'') ''large_images'') ''0'') ''image_url'';
          rawWebp = opt (opt item ''common_attr'') ''cover_url'';
          coverMap = opt (opt item ''common_attr'') ''cover_url_map''
      in case (if truthy rawPng then map_sum id Some (js_replace_amp rawPng) else Inr None) of
           Inl err \<Rightarrow> Inl err
         | Inr p \<Rightarrow>
        (case (if truthy rawWebp then map_sum id Some (js_replace_amp rawWebp) else Inr None) of
           Inl err \<Rightarrow> Inl err
         | Inr w \<Rightarrow>
        (if truthy coverMap \<and> is_object coverMap then
           (case collect_sizes coverMap (object_keys coverMap) [] of
              Inl err \<Rightarrow> Inl err
            | Inr sizes \<Rightarrow>
                Inr \<lparr>png = p, webp = w, webp_long = pick_long sizes normalSizeKeys,
                     webp_sizes = sizes\<rparr>)
         else Inr \<lparr>png = p, webp = w, webp_long = None, webp_sizes = []\<rparr>)))"

text \<open>
  \<open>extractImageUrls\<close>: \<open>itemList.map(extractImageUrl).filter(url => url !== null)\<close>.
  Only an array has \<open>map\<close>.
\<close>

fun map_items :: "jsval list \<Rightarrow> error + string option list" where
  "map_items [] = Inr []"
| "map_items (item # items) =
     (case extractImageUrl item of
        Inl err \<Rightarrow> Inl err
      | Inr u \<Rightarrow> (case map_items items of Inl err \<Rightarrow> Inl err | Inr us \<Rightarrow> Inr (u # us)))"

fun extractImageUrls :: "jsval \<Rightarrow> error + string list" where
  "extractImageUrls (Arr items) =
     (case map_items items of
        Inl err \<Rightarrow> Inl err
      | Inr us \<Rightarrow> Inr (map the (filter (\<lambda>u. u \<noteq> None) us)))"
| "extractImageUrls v = Inl TypeError"

text \<open>\<open>extractVideoUrl\<close>: the first truthy one of four fields, or \<open>null\<close>.\<close>

definition extractVideoUrl :: "jsval \<Rightarrow> jsval" where
  "extractVideoUrl item =
     (if truthy (opt (opt (opt (opt item ''video'') ''transcoded_video'') ''origin'') ''video_url'')
      then js_get (js_get (js_get (js_get item ''video'') ''transcoded_video'') ''origin'') ''video_url''
      else if truthy (opt (opt item ''video'') ''play_url'')
      then js_get (js_get item ''video'') ''play_url''
      else if truthy (opt (opt item ''video'') ''download_url'')
      then js_get (js_get item ''video'') ''download_url''
      else if truthy (opt (opt item ''video'') ''url'')
      then js_get (js_get item ''video'') ''url''
      else Null)"

section \<open>Serialising a response and matching the CDN pattern\<close>

text \<open>
  \<open>JSON.stringify\<close>: \<open>undefined\<close> at the top gives no string; inside an array it is
  written \<open>null\<close>, and a property holding it is left out.  A parsed response holds
  no inherited member, so the equation for one only makes the function total.
\<close>

definition hex_char :: "nat \<Rightarrow> char" where
  "hex_char d = (if d < 10 then char_of (48 + d) else char_of (87 + d))"

definition quote_char :: "char \<Rightarrow> string" where
  "quote_char c =
     (let n = (of_char c :: nat)
      in if c = CHR 0x22 then [CHR 0x5C, CHR 0x22]
         else if c = CHR 0x5C then [CHR 0x5C, CHR 0x5C]
         else if n = 8 then [CHR 0x5C, CHR ''b'']
         else if n = 9 then [CHR 0x5C, CHR ''t'']
         else if n = 10 then [CHR 0x5C, CHR ''n'']
         else if n = 12 then [CHR 0x5C, CHR ''f'']
         else if n = 13 then [CHR 0x5C, CHR ''r'']
         else if n < 32 then CHR 0x5C # ''u00'' @ [hex_char (n div 16), hex_char (n mod 16)]
         else [c])"

definition quote_string :: "string \<Rightarrow> string" where
  "quote_string s = CHR 0x22 # concat (map quote_char s) @ [CHR 0x22]"

fun join_comma :: "string list \<Rightarrow> string" where
  "join_comma [] = []"
| "join_comma [x] = x"
| "join_comma (x # y # ys) = x @ '','' @ join_comma (y # ys)"

definition number_string :: "int \<Rightarrow> string" where
  "number_string n = (if n < 0 then CHR ''-'' # digits_of (nat (- n)) else digits_of (nat n))"

fun serialize :: "jsval \<Rightarrow> string" where
  "serialize Undefined = ''null''"
| "serialize Null = ''null''"
| "serialize (Bool b) = (if b then ''true'' else ''false'')"
| "serialize (Num n) = number_string n"
| "serialize (Str s) = quote_string s"
| "serialize (Arr xs) = ''['' @ join_comma (map serialize xs) @ '']''"
| "serialize (Obj kvs) =
     ''{'' @ join_comma (map (\<lambda>(k, v). quote_string k @ '':'' @ serialize v)
                          (filter (\<lambda>(k, v). v \<noteq> Undefined) kvs)) @ ''}''"
| "serialize (Builtin k) = ''null''"

definition JSON_stringify :: "jsval \<Rightarrow> string option" where
  "JSON_stringify v = (if v = Undefined then None else Some (serialize v))"

text \<open>
  \<open>responseStr.match(/https:\/\/v[0-9]+-artist\.vlabvod\.com\/[^"\s]+/)\<close>: the leftmost
  match, each repetition taking all it can (no shorter repetition can match, since a digit
  is never followed where \<open>-\<close> is wanted).  \<open>is_space\<close> is \<open>\s\<close> on 8-bit code
  units.
\<close>

definition is_space :: "char \<Rightarrow> bool" where
  "is_space c = ((of_char c :: nat) \<in> {9, 10, 11, 12, 13, 32, 160})"

definition match_here :: "string \<Rightarrow> string option" where
  "match_here s =
     (if prefix ''https://v'' s then
        (let r = drop 9 s; ds = takeWhile is_digit r; r2 = dropWhile is_digit r
         in if ds \<noteq> [] \<and> prefix ''-artist.vlabvod.com/'' r2 then
              (let tl = takeWhile (\<lambda>c. c \<noteq> CHR 0x22 \<and> \<not> is_space c) (drop 20 r2)
               in if tl \<noteq> [] then Some (''https://v'' @ ds @ ''-artist.vlabvod.com/'' @ tl)
                  else None)
            else None)
      else None)"

fun match_vlabvod :: "string \<Rightarrow> string option" where
  "match_vlabvod [] = None"
| "match_vlabvod (c # cs) =
     (case match_here (c # cs) of Some u \<Rightarrow> Some u | None \<Rightarrow> match_vlabvod cs)"

section \<open>Collaborators and the trace of their calls\<close>

text \<open>
  The functions call collaborators that are not part of this layer: the file system, the
  HTTP client, the two upload primitives of \<open>image-uploader\<close> and the vendor
  \<open>request\<close>.  Each call is recorded, in order, in a trace; what a collaborator answers
  may depend on everything that happened before, so it takes the trace so far.  \<open>Inl m\<close>
  is a rejection with message \<open>m\<close>.  A request is recorded with the values the
  payload is built from (identifiers, seeds and timestamps drawn at random are left out).
  \<open>inherits\<close> is the runtime's part in a property read: whether a value inherits a
  member of a given name from its built-in prototype.

  An entry of \<open>request.files\<close> is the value of one form field: a file object, or an
  array of file objects when several files were sent under the field's name.  The array
  has no \<open>filepath\<close>, so \<open>fs.readFile\<close> is called with \<open>undefined\<close> for it
  (\<open>FsReadFileUndefined\<close>) and rejects the argument with a \<open>TypeError\<close>.
\<close>

type_synonym buffer = "nat list"

datatype image_input = ImgUrl string | ImgBuffer buffer

record uploaded_file =
  originalFilename :: string
  filepath :: string

datatype file_field = FileObject uploaded_file | FileArray "uploaded_file list"

record image_payload =
  ip_model :: string
  ip_prompt :: string

record blend_payload =
  bp_model :: string
  bp_prompt :: string
  bp_imageCount :: nat
  bp_uploadedImageIds :: "string list"

record video_payload =
  vp_model :: string
  vp_prompt :: string
  vp_ratio :: string
  vp_resolution :: "string option"
  vp_benefit_type :: string
  vp_duration_ms :: int
  vp_videoDuration :: int
  vp_first_frame_image :: "string option"
  vp_end_frame_image :: "string option"

datatype req =
    GenerateImage image_payload
  | GenerateBlend blend_payload
  | GenerateVideo video_payload
  | HistoryByIds string bool

datatype event =
    FsAccess string
  | FsReadFile string
  | FsReadFileUndefined
  | AxiosGet string
  | UploadImageBuffer buffer
  | UploadImageFromUrl string
  | Request req

record env =
  fs_access :: "event list \<Rightarrow> string \<Rightarrow> bool"
  fs_readFile :: "event list \<Rightarrow> string \<Rightarrow> string + buffer"
  axios_get :: "event list \<Rightarrow> string \<Rightarrow> string + int \<times> buffer"
  uploadImageBuffer :: "event list \<Rightarrow> buffer \<Rightarrow> string + string"
  uploadImageFromUrl :: "event list \<Rightarrow> string \<Rightarrow> string + string"
  request :: "event list \<Rightarrow> req \<Rightarrow> string + jsval"
  inherits :: "jsval \<Rightarrow> string \<Rightarrow> bool"

type_synonym 'a io = "event list \<Rightarrow> (error + 'a) \<times> event list"

definition bind_io :: "'a io \<Rightarrow> ('a \<Rightarrow> 'b io) \<Rightarrow> 'b io" where
  "bind_io m f tr = (case m tr of (Inl err, tr') \<Rightarrow> (Inl err, tr') | (Inr a, tr') \<Rightarrow> f a tr')"

definition return_io :: "'a \<Rightarrow> 'a io" where
  "return_io a tr = (Inr a, tr)"

definition throw_io :: "error \<Rightarrow> 'a io" where
  "throw_io err tr = (Inl err, tr)"

definition rejected :: "string + 'a \<Rightarrow> error + 'a" where
  "rejected r = (case r of Inl m \<Rightarrow> Inl (Thrown m) | Inr a \<Rightarrow> Inr a)"

definition call_readFile :: "env \<Rightarrow> string \<Rightarrow> buffer io" where
  "call_readFile e path tr = (rejected (fs_readFile e tr path), tr @ [FsReadFile path])"

definition call_readFile_undefined :: "buffer io" where
  "call_readFile_undefined tr = (Inl TypeError, tr @ [FsReadFileUndefined])"

definition call_axios_get :: "env \<Rightarrow> string \<Rightarrow> (int \<times> buffer) io" where
  "call_axios_get e url tr = (rejected (axios_get e tr url), tr @ [AxiosGet url])"

definition call_uploadImageBuffer :: "env \<Rightarrow> buffer \<Rightarrow> string io" where
  "call_uploadImageBuffer e buf tr =
     (rejected (uploadImageBuffer e tr buf), tr @ [UploadImageBuffer buf])"

definition call_uploadImageFromUrl :: "env \<Rightarrow> string \<Rightarrow> string io" where
  "call_uploadImageFromUrl e url tr =
     (rejected (uploadImageFromUrl e tr url), tr @ [UploadImageFromUrl url])"

definition call_request :: "env \<Rightarrow> req \<Rightarrow> jsval io" where
  "call_request e r tr = (rejected (request e tr r), tr @ [Request r])"

section \<open>Task submission (controllers/async-tasks)\<close>

text \<open>
  The functions are modelled from the point where region, model key and resolution are
  resolved (\<open>parseRegionFromToken\<close>, \<open>getModel\<close>, \<open>resolveResolution\<close> are
  collaborators); the resolved model key is an argument.
\<close>

text \<open>\<open>const { aigc_data } = await request(...)\<close>.\<close>

definition destructure_aigc_data :: "jsval \<Rightarrow> jsval io" where
  "destructure_aigc_data response =
     (if nullish response then throw_io TypeError else return_io (js_get response ''aigc_data''))"

text \<open>Lines 108--114 and 248--254: \<open>aigc_data?.history_record_id\<close>.\<close>

definition history_id_of_image_response :: "jsval \<Rightarrow> jsval io" where
  "history_id_of_image_response response =
     bind_io (destructure_aigc_data response) (\<lambda>aigc_data.
       let historyId = opt aigc_data ''history_record_id''
       in if \<not> truthy historyId
          then throw_io (APIException API_IMAGE_GENERATION_FAILED RecordIdMissing)
          else return_io historyId)"

text \<open>Lines 629--635: \<open>aigc_data.history_record_id\<close>, without the \<open>?.\<close>.\<close>

definition history_id_of_video_response :: "jsval \<Rightarrow> jsval io" where
  "history_id_of_video_response response =
     bind_io (destructure_aigc_data response) (\<lambda>aigc_data.
       if nullish aigc_data then throw_io TypeError
       else
         let historyId = js_get aigc_data ''history_record_id''
         in if \<not> truthy historyId
            then throw_io (APIException API_IMAGE_GENERATION_FAILED RecordIdMissing)
            else return_io historyId)"

definition createImageGenerationTask :: "env \<Rightarrow> string \<Rightarrow> string \<Rightarrow> jsval io" where
  "createImageGenerationTask e model prompt =
     bind_io (call_request e (GenerateImage \<lparr>ip_model = model, ip_prompt = prompt\<rparr>))
       history_id_of_image_response"

text \<open>
  The upload loop of \<open>createImageCompositionTask\<close> (lines 156--174); \<open>ids\<close> is
  \<open>uploadedImageIds\<close>.
\<close>

fun upload_images :: "env \<Rightarrow> image_input list \<Rightarrow> string list \<Rightarrow> string list io" where
  "upload_images e [] ids tr = (Inr ids, tr)"
| "upload_images e (img # rest) ids tr =
     (case (case img of
              ImgUrl url \<Rightarrow> call_uploadImageFromUrl e url tr
            | ImgBuffer buf \<Rightarrow> call_uploadImageBuffer e buf tr) of
        (Inr imageId, tr') \<Rightarrow> upload_images e rest (ids @ [imageId]) tr'
      | (Inl err, tr') \<Rightarrow>
          (Inl (APIException API_IMAGE_GENERATION_FAILED (ImageUploadFailed (error_message err))),
           tr'))"

definition createImageCompositionTask ::
  "env \<Rightarrow> string \<Rightarrow> string \<Rightarrow> image_input list \<Rightarrow> jsval io" where
  "createImageCompositionTask e model prompt images =
     bind_io (upload_images e images []) (\<lambda>uploadedImageIds.
     bind_io (call_request e (GenerateBlend
                \<lparr>bp_model = model, bp_prompt = prompt, bp_imageCount = length images,
                 bp_uploadedImageIds = uploadedImageIds\<rparr>))
       history_id_of_image_response)"

text \<open>The three upload helpers of the video flow and \<open>isLocalFilePath\<close>.\<close>

definition uploadImageFromFile :: "env \<Rightarrow> file_field \<Rightarrow> string io" where
  "uploadImageFromFile e file =
     bind_io (case file of
                FileObject f \<Rightarrow> call_readFile e (filepath f)
              | FileArray fs \<Rightarrow> call_readFile_undefined)
       (call_uploadImageBuffer e)"

definition uploadVideoImageFromUrl :: "env \<Rightarrow> string \<Rightarrow> string io" where
  "uploadVideoImageFromUrl e imageUrl =
     bind_io (call_axios_get e imageUrl) (\<lambda>(status, imageBuffer).
       if status < 200 \<or> status \<ge> 300
       then throw_io (Thrown (''download failed: '' @ number_string status))
       else call_uploadImageBuffer e imageBuffer)"

definition uploadVideoImageFromLocalPath :: "env \<Rightarrow> string \<Rightarrow> string io" where
  "uploadVideoImageFromLocalPath e localPath =
     bind_io (call_readFile e localPath) (call_uploadImageBuffer e)"

definition isLocalFilePath :: "env \<Rightarrow> string \<Rightarrow> event list \<Rightarrow> bool \<times> event list" where
  "isLocalFilePath e filePath tr =
     (if \<not> startsWith filePath ''/'' then (False, tr)
      else (fs_access e tr filePath, tr @ [FsAccess filePath]))"

text \<open>
  The loop over \<open>uploadedFiles = _.values(files)\<close> (lines 396--414): \<open>i\<close> is the
  loop index, \<open>None\<close> a falsy entry, \<open>ids\<close> is \<open>uploadIDs\<close>.
\<close>

fun upload_files_loop ::
  "env \<Rightarrow> nat \<Rightarrow> file_field option list \<Rightarrow> string list \<Rightarrow> string list io" where
  "upload_files_loop e i [] ids tr = (Inr ids, tr)"
| "upload_files_loop e i (None # rest) ids tr = upload_files_loop e (Suc i) rest ids tr"
| "upload_files_loop e i (Some file # rest) ids tr =
     (case uploadImageFromFile e file tr of
        (Inr imageUri, tr') \<Rightarrow>
          upload_files_loop e (Suc i) rest (if imageUri \<noteq> [] then ids @ [imageUri] else ids) tr'
      | (Inl err, tr') \<Rightarrow>
          if i = 0
          then (Inl (APIException API_REQUEST_FAILED (FirstFrameUploadFailed (error_message err))),
                tr')
          else upload_files_loop e (Suc i) rest ids tr')"

text \<open>The loop over \<open>filePaths\<close> (lines 419--447); the empty string is the falsy path.\<close>

definition upload_path :: "env \<Rightarrow> string \<Rightarrow> string io" where
  "upload_path e filePath tr =
     (case isLocalFilePath e filePath tr of
        (True, tr') \<Rightarrow> uploadVideoImageFromLocalPath e filePath tr'
      | (False, tr') \<Rightarrow> uploadVideoImageFromUrl e filePath tr')"

fun upload_paths_loop ::
  "env \<Rightarrow> nat \<Rightarrow> string list \<Rightarrow> string list \<Rightarrow> string list io" where
  "upload_paths_loop e i [] ids tr = (Inr ids, tr)"
| "upload_paths_loop e i (filePath # rest) ids tr =
     (if filePath = [] then upload_paths_loop e (Suc i) rest ids tr
      else
        (case upload_path e filePath tr of
           (Inr imageUri, tr') \<Rightarrow>
             upload_paths_loop e (Suc i) rest
               (if imageUri \<noteq> [] then ids @ [imageUri] else ids) tr'
         | (Inl err, tr') \<Rightarrow>
             if i = 0
             then (Inl (APIException API_REQUEST_FAILED
                          (FirstFrameUploadFailed (error_message err))), tr')
             else upload_paths_loop e (Suc i) rest ids tr'))"

record video_options =
  ratio :: string
  resolution :: string
  duration :: int
  filePaths :: "string list"
  files :: "file_field option list"

definition getVideoBenefitType :: "string \<Rightarrow> string" where
  "getVideoBenefitType model =
     (if str_includes model ''veo3.1'' then ''generate_video_veo3.1''
      else if str_includes model ''veo3'' then ''generate_video_veo3''
      else if str_includes model ''sora2'' then ''generate_video_sora2''
      else if str_includes model ''3.5_pro'' then ''dreamina_video_seedance_15_pro''
      else if str_includes model ''3.5'' then ''dreamina_video_seedance_15''
      else ''basic_video_operation_vgfm_v_three'')"

text \<open>\<open>uploadIDs[i]\<close> when it is truthy (lines 456 and 473).\<close>

definition frame_image :: "string list \<Rightarrow> nat \<Rightarrow> string option" where
  "frame_image uploadIDs i =
     (if i < length uploadIDs \<and> uploadIDs ! i \<noteq> [] then Some (uploadIDs ! i) else None)"

definition upload_video_images :: "env \<Rightarrow> video_options \<Rightarrow> string list io" where
  "upload_video_images e opts =
     (if length (files opts) > 0 then upload_files_loop e 0 (files opts) []
      else if length (filePaths opts) > 0 then upload_paths_loop e 0 (filePaths opts) []
      else return_io [])"

definition createVideoGenerationTask ::
  "env \<Rightarrow> string \<Rightarrow> string \<Rightarrow> video_options \<Rightarrow> jsval io" where
  "createVideoGenerationTask e model prompt opts =
     (let supportsResolution =
            ((str_includes model ''vgfm_3.0'' \<or> str_includes model ''vgfm_3.0_fast'')
             \<and> \<not> str_includes model ''_pro'');
          durationMs = fst (durationPolicy model (duration opts));
          actualDuration = snd (durationPolicy model (duration opts))
      in bind_io (upload_video_images e opts) (\<lambda>uploadIDs.
         let first_frame_image = (if length uploadIDs > 0 then frame_image uploadIDs 0 else None);
             end_frame_image = (if length uploadIDs > 0 then frame_image uploadIDs 1 else None)
         in bind_io (call_request e (GenerateVideo
                \<lparr>vp_model = model, vp_prompt = prompt, vp_ratio = ratio opts,
                 vp_resolution = (if supportsResolution then Some (resolution opts) else None),
                 vp_benefit_type = getVideoBenefitType model,
                 vp_duration_ms = durationMs, vp_videoDuration = actualDuration,
                 vp_first_frame_image = first_frame_image,
                 vp_end_frame_image = end_frame_image\<rparr>))
              history_id_of_video_response))"

section \<open>Status queries\<close>

text \<open>
  \<open>v.length > 0\<close> on a truthy value.  A \<open>length\<close> that is not a number is read as
  not positive (so it is for \<open>undefined\<close>, \<open>null\<close>, \<open>false\<close> and the strings that
  are not numerals; a \<open>length\<close> property holding a numeral string or \<open>true\<close> is
  outside the model).
\<close>

definition length_positive :: "jsval \<Rightarrow> bool" where
  "length_positive v = (case js_get v ''length'' of Num n \<Rightarrow> 0 < n | _ \<Rightarrow> False)"

record image_status =
  is_history_id :: string
  is_task_type :: string
  is_status :: jsval
  is_fail_code :: jsval
  is_item_count :: jsval
  is_results :: "string list option"
  is_raw_data :: jsval

definition queryImageTaskStatus :: "env \<Rightarrow> string \<Rightarrow> image_status io" where
  "queryImageTaskStatus e historyId =
     bind_io (call_request e (HistoryByIds historyId True)) (\<lambda>response.
       if nullish response then throw_io TypeError
       else if \<not> truthy (js_member (inherits e) response historyId)
       then throw_io (APIException API_IMAGE_GENERATION_FAILED (TaskNotFound historyId))
       else
         let taskInfo = js_member (inherits e) response historyId;
             status = js_get taskInfo ''status'';
             failCode = js_get taskInfo ''fail_code'';
             itemList = js_or (js_get taskInfo ''item_list'') (Arr []);
             answer = (\<lambda>results.
               \<lparr>is_history_id = historyId, is_task_type = ''image'', is_status = status,
                is_fail_code = failCode, is_item_count = js_get itemList ''length'',
                is_results = results, is_raw_data = taskInfo\<rparr>)
         in if length_positive itemList then
              (if nullish (js_get itemList ''0'') then throw_io TypeError
               else if truthy (js_get (js_get itemList ''0'') ''image'') then
                 (case extractImageUrls itemList of
                    Inl err \<Rightarrow> throw_io err
                  | Inr imageUrls \<Rightarrow>
                      return_io (answer (if length imageUrls > 0 then Some imageUrls else None)))
               else return_io (answer None))
            else return_io (answer None))"

record video_status =
  vs_status :: string
  vs_statusCode :: jsval
  vs_failCode :: jsval
  vs_videoUrl :: jsval
  vs_finishTime :: jsval
  vs_rawData :: jsval

text \<open>Lines 756--765: the status text for a raw status and an extracted URL.\<close>

definition statusText_of :: "jsval \<Rightarrow> jsval \<Rightarrow> string" where
  "statusText_of currentStatus videoUrl =
     (let statusText =
            (if currentStatus = Num 20 then ''processing''
             else if currentStatus = Num 10 \<or> currentStatus = Num 30
             then (if truthy videoUrl then ''completed'' else ''processing'')
             else if currentStatus = Num 50
             then (if truthy videoUrl then ''completed'' else ''failed'')
             else ''unknown'')
      in if truthy videoUrl then ''completed'' else statusText)"

definition queryVideoTaskStatus :: "env \<Rightarrow> string \<Rightarrow> video_status io" where
  "queryVideoTaskStatus e historyId =
     bind_io (call_request e (HistoryByIds historyId False)) (\<lambda>result.
       case JSON_stringify result of
         None \<Rightarrow> throw_io TypeError
       | Some responseStr \<Rightarrow>
           let videoUrlMatch = match_vlabvod responseStr
           in if nullish result then throw_io TypeError
              else if \<not> truthy (js_member (inherits e) result historyId) then
                return_io \<lparr>vs_status = ''processing'', vs_statusCode = Num 20,
                           vs_failCode = Num 0, vs_videoUrl = Null, vs_finishTime = Num 0,
                           vs_rawData = Null\<rparr>
              else
                let historyData = js_member (inherits e) result historyId;
                    currentStatus = js_get historyData ''status'';
                    currentFailCode = js_or (js_get historyData ''fail_code'') (Num 0);
                    finishTime = js_or (opt (js_get historyData ''task'') ''finish_time'') (Num 0);
                    item_list = js_or (js_get historyData ''item_list'') (Arr []);
                    videoUrl =
                      (if videoUrlMatch \<noteq> None \<and> the videoUrlMatch \<noteq> []
                       then Str (the videoUrlMatch)
                       else if length_positive item_list
                       then extractVideoUrl (js_get item_list ''0'')
                       else Null)
                in return_io \<lparr>vs_status = statusText_of currentStatus videoUrl,
                              vs_statusCode = currentStatus, vs_failCode = currentFailCode,
                              vs_videoUrl = videoUrl, vs_finishTime = finishTime,
                              vs_rawData = historyData\<rparr>)"

section \<open>Route handlers (routes/async-tasks)\<close>














section \<open>Reading a trace; sample collaborators\<close>

fun is_request :: "event \<Rightarrow> bool" where
  "is_request (Request r) = True"
| "is_request ev = False"


text \<open>
  The payload and the request \<open>createVideoGenerationTask\<close> sends once \<open>uploadIDs\<close>
  is known.
\<close>

definition video_payload_of ::
  "string \<Rightarrow> string \<Rightarrow> video_options \<Rightarrow> string list \<Rightarrow> video_payload" where
  "video_payload_of model prompt opts uploadIDs =
     \<lparr>vp_model = model, vp_prompt = prompt, vp_ratio = ratio opts,
      vp_resolution =
        (if (str_includes model ''vgfm_3.0'' \<or> str_includes model ''vgfm_3.0_fast'')
            \<and> \<not> str_includes model ''_pro''
         then Some (resolution opts) else None),
      vp_benefit_type = getVideoBenefitType model,
      vp_duration_ms = fst (durationPolicy model (duration opts)),
      vp_videoDuration = snd (durationPolicy model (duration opts)),
      vp_first_frame_image = (if length uploadIDs > 0 then frame_image uploadIDs 0 else None),
      vp_end_frame_image = (if length uploadIDs > 0 then frame_image uploadIDs 1 else None)\<rparr>"

definition video_request_of :: "string \<Rightarrow> string \<Rightarrow> video_options \<Rightarrow> string list \<Rightarrow> req" where
  "video_request_of model prompt opts uploadIDs =
     GenerateVideo (video_payload_of model prompt opts uploadIDs)"

text \<open>
  The upload of the image at index 0 of a video call, when the entry there is truthy:
  of the first uploaded file if there are files, else of the first path.
\<close>

definition first_image_upload ::
  "env \<Rightarrow> video_options \<Rightarrow> ((error + string) \<times> event list) option" where
  "first_image_upload e opts =
     (case files opts of
        Some fl # rest \<Rightarrow> Some (uploadImageFromFile e fl [])
      | None # rest \<Rightarrow> None
      | [] \<Rightarrow>
          (case filePaths opts of
             p # rest \<Rightarrow> if p = [] then None else Some (upload_path e p [])
           | [] \<Rightarrow> None))"

text \<open>
  The names of the members of the built-in prototypes (ECMAScript 2024 with its Annex B;
  \<open>length\<close> is an own property of arrays and strings), and the \<open>inherits\<close> of a
  runtime that has them: an array, a string, a number and a boolean inherit from their
  own prototype and from \<open>Object.prototype\<close>.
\<close>

definition object_prototype_names :: "string list" where
  "object_prototype_names =
     [''constructor'', ''__defineGetter__'', ''__defineSetter__'', ''hasOwnProperty'',
      ''__lookupGetter__'', ''__lookupSetter__'', ''isPrototypeOf'', ''propertyIsEnumerable'',
      ''toString'', ''valueOf'', ''__proto__'', ''toLocaleString'']"

definition array_prototype_names :: "string list" where
  "array_prototype_names =
     [''at'', ''concat'', ''copyWithin'', ''fill'', ''find'', ''findIndex'', ''findLast'',
      ''findLastIndex'', ''lastIndexOf'', ''pop'', ''push'', ''reverse'', ''shift'', ''unshift'',
      ''slice'', ''sort'', ''splice'', ''includes'', ''indexOf'', ''join'', ''keys'', ''entries'',
      ''values'', ''forEach'', ''filter'', ''flat'', ''flatMap'', ''map'', ''every'', ''some'',
      ''reduce'', ''reduceRight'', ''toReversed'', ''toSorted'', ''toSpliced'', ''with'']"

definition string_prototype_names :: "string list" where
  "string_prototype_names =
     [''anchor'', ''at'', ''big'', ''blink'', ''bold'', ''charAt'', ''charCodeAt'', ''codePointAt'',
      ''concat'', ''endsWith'', ''fontcolor'', ''fontsize'', ''fixed'', ''includes'', ''indexOf'',
      ''isWellFormed'', ''italics'', ''lastIndexOf'', ''link'', ''localeCompare'', ''match'',
      ''matchAll'', ''normalize'', ''padEnd'', ''padStart'', ''repeat'', ''replace'',
      ''replaceAll'', ''search'', ''slice'', ''small'', ''split'', ''strike'', ''sub'', ''substr'',
      ''substring'', ''sup'', ''startsWith'', ''toWellFormed'', ''trim'', ''trimStart'',
      ''trimLeft'', ''trimEnd'', ''trimRight'', ''toLocaleLowerCase'', ''toLocaleUpperCase'',
      ''toLowerCase'', ''toUpperCase'']"

definition number_prototype_names :: "string list" where
  "number_prototype_names = [''toExponential'', ''toFixed'', ''toPrecision'']"

fun prototype_names :: "jsval \<Rightarrow> string list" where
  "prototype_names (Arr xs) = array_prototype_names @ object_prototype_names"
| "prototype_names (Str s) = string_prototype_names @ object_prototype_names"
| "prototype_names (Num n) = number_prototype_names @ object_prototype_names"
| "prototype_names Undefined = []"
| "prototype_names Null = []"
| "prototype_names v = object_prototype_names"

definition node_inherits :: "jsval \<Rightarrow> string \<Rightarrow> bool" where
  "node_inherits v k = (k \<in> set (prototype_names v))"

text \<open>The fixed keys the source reads with \<open>.\<close> or \<open>[0]\<close>.\<close>

definition literal_keys :: "string list" where
  "literal_keys =
     [''status'', ''fail_code'', ''task'', ''finish_time'', ''item_list'', ''0'', ''image'',
      ''large_images'', ''image_url'', ''common_attr'', ''cover_url'', ''cover_url_map'',
      ''video'', ''transcoded_video'', ''origin'', ''video_url'', ''play_url'', ''download_url'',
      ''url'', ''aigc_data'', ''history_record_id'']"

text \<open>
  Collaborators that always succeed: every read gives three bytes, every upload the
  asset id \<open>asset\<close>, every request a response carrying the history id \<open>h1\<close>.
\<close>

definition steady_env :: env where
  "steady_env =
     \<lparr>fs_access = (\<lambda>tr path. False),
      fs_readFile = (\<lambda>tr path. Inr [1, 2, 3]),
      axios_get = (\<lambda>tr url. Inr (200, [4, 5, 6])),
      uploadImageBuffer = (\<lambda>tr buf. Inr ''asset''),
      uploadImageFromUrl = (\<lambda>tr url. Inr (''asset:'' @ url)),
      request = (\<lambda>tr r. Inr (Obj [(''aigc_data'', Obj [(''history_record_id'', Str ''h1'')])])),
      inherits = node_inherits\<rparr>"

definition text_only :: "int \<Rightarrow> video_options" where
  "text_only d =
     \<lparr>ratio = ''1:1'', resolution = ''720p'', duration = d, filePaths = [], files = []\<rparr>"

text \<open>
  What the composition loop hands to the upload primitives: the event an image's upload
  leaves in the trace, the primitive's answer for it, and the answer for the image at
  index \<open>i\<close> once the images before it are uploaded.
\<close>
fun upload_event :: "image_input \<Rightarrow> event" where
  "upload_event (ImgUrl url) = UploadImageFromUrl url"
| "upload_event (ImgBuffer buf) = UploadImageBuffer buf"

fun upload_answer :: "env \<Rightarrow> event list \<Rightarrow> image_input \<Rightarrow> string + string" where
  "upload_answer e tr (ImgUrl url) = uploadImageFromUrl e tr url"
| "upload_answer e tr (ImgBuffer buf) = uploadImageBuffer e tr buf"

definition answer_at :: "env \<Rightarrow> image_input list \<Rightarrow> nat \<Rightarrow> string + string" where
  "answer_at e images i = upload_answer e (map upload_event (take i images)) (images ! i)"

text \<open>
  Collaborators that reject the URL \<open>bad\<close> (download and upload) and the file
  \<open>/missing\<close>, and succeed otherwise.
\<close>

definition picky_env :: env where
  "picky_env =
     \<lparr>fs_access = (\<lambda>tr path. path = ''/cache/img.png''),
      fs_readFile = (\<lambda>tr path. if path = ''/missing'' then Inl ''ENOENT'' else Inr [1, 2, 3]),
      axios_get = (\<lambda>tr url. if url = ''bad'' then Inl ''boom'' else Inr (200, [4, 5, 6])),
      uploadImageBuffer = (\<lambda>tr buf. Inr ''asset''),
      uploadImageFromUrl = (\<lambda>tr url. if url = ''bad'' then Inl ''boom'' else Inr (''asset:'' @ url)),
      request = (\<lambda>tr r. Inr (Obj [(''aigc_data'', Obj [(''history_record_id'', Str ''h1'')])])),
      inherits = node_inherits\<rparr>"







text \<open>Video options with the given paths and no uploaded file; a file that cannot be read.\<close>

definition with_paths :: "string list \<Rightarrow> video_options" where
  "with_paths ps =
     \<lparr>ratio = ''1:1'', resolution = ''720p'', duration = 5, filePaths = ps, files = []\<rparr>"

definition missing_file :: file_field where
  "missing_file = FileObject \<lparr>originalFilename = ''gone.png'', filepath = ''/missing''\<rparr>"






text \<open>Collaborators whose \<open>request\<close> answers every call with the given response.\<close>

definition history_env :: "jsval \<Rightarrow> env" where
  "history_env response = steady_env\<lparr>request := (\<lambda>tr r. Inr response)\<rparr>"

text \<open>
  The URL \<open>queryVideoTaskStatus\<close> extracts from a response \<open>result\<close> whose record
  is \<open>historyData\<close>.
\<close>

definition extracted_videoUrl :: "jsval \<Rightarrow> jsval \<Rightarrow> jsval" where
  "extracted_videoUrl result historyData =
     (let item_list = js_or (js_get historyData ''item_list'') (Arr [])
      in if match_vlabvod (serialize result) \<noteq> None \<and> the (match_vlabvod (serialize result)) \<noteq> []
         then Str (the (match_vlabvod (serialize result)))
         else if length_positive item_list then extractVideoUrl (js_get item_list ''0'')
         else Null)"



definition resp_status :: "int \<Rightarrow> jsval" where
  "resp_status code = Obj [(''h1'', Obj [(''status'', Num code), (''fail_code'', Num 0)])]"


definition image_answer :: "string \<Rightarrow> jsval \<Rightarrow> string list option \<Rightarrow> image_status" where
  "image_answer historyId taskInfo results =
     \<lparr>is_history_id = historyId, is_task_type = ''image'',
      is_status = js_get taskInfo ''status'', is_fail_code = js_get taskInfo ''fail_code'',
      is_item_count = js_get (js_or (js_get taskInfo ''item_list'') (Arr [])) ''length'',
      is_results = results, is_raw_data = taskInfo\<rparr>"

definition resp_first_item_null :: jsval where
  "resp_first_item_null = Obj [(''h1'', Obj [(''status'', Num 50), (''item_list'', Arr [Null])])]"


text \<open>
  The URL a cover map holds under a key (a non-empty string); following the spec's words,
  the first entry present when keys are tried in order; the URL strings an
  \<open>ImageUrlInfo\<close> returns.
\<close>

definition url_entry :: "jsval \<Rightarrow> string \<Rightarrow> string option" where
  "url_entry coverMap key =
     (case js_get coverMap key of Str s \<Rightarrow> if s = [] then None else Some s | _ \<Rightarrow> None)"

fun first_present :: "(string \<Rightarrow> string option) \<Rightarrow> string list \<Rightarrow> string option" where
  "first_present m [] = None"
| "first_present m (key # keys) = (case m key of Some v \<Rightarrow> Some v | None \<Rightarrow> first_present m keys)"

definition returned_urls :: "ImageUrlInfo \<Rightarrow> string set" where
  "returned_urls info =
     set_option (png info) \<union> set_option (webp info) \<union> set_option (webp_long info)
     \<union> snd ` set (webp_sizes info)"

text \<open>Sample items: URLs with the escaped ampersand, and the size map of the spec's example.\<close>

definition item_720_360 :: jsval where
  "item_720_360 =
     Obj [(''image'', Obj [(''large_images'',
             Arr [Obj [(''image_url'', Str (''https://p/a.png?x=1'' @ escaped_amp @ ''y=2''))]])]),
          (''common_attr'',
             Obj [(''cover_url'', Str (''https://p/a.webp?x=1'' @ escaped_amp @ ''y=2'')),
                  (''cover_url_map'',
                     Obj [(''720'', Str (''https://p/720?x=1'' @ escaped_amp @ ''y=2'')),
                          (''360'', Str ''https://p/360'')])])]"

definition item_a_b :: jsval where
  "item_a_b =
     Obj [(''common_attr'',
             Obj [(''cover_url_map'', Obj [(''720'', Str ''a''), (''360'', Str ''b'')])])]"

text \<open>A raw field that \<open>replace\<close> can be called on when it is truthy.\<close>

fun string_or_falsy :: "jsval \<Rightarrow> bool" where
  "string_or_falsy (Str s) = True"
| "string_or_falsy v = (\<not> truthy v)"

section \<open>Traces of the upload helpers\<close>

lemma requests_call_readFile:
  "filter is_request (snd (call_readFile e p tr)) = filter is_request tr"
  by (simp add: call_readFile_def)

lemma requests_call_axios_get:
  "filter is_request (snd (call_axios_get e p tr)) = filter is_request tr"
  by (simp add: call_axios_get_def)

lemma requests_call_uploadImageBuffer:
  "filter is_request (snd (call_uploadImageBuffer e b tr)) = filter is_request tr"
  by (simp add: call_uploadImageBuffer_def)

lemma requests_call_uploadImageFromUrl:
  "filter is_request (snd (call_uploadImageFromUrl e b tr)) = filter is_request tr"
  by (simp add: call_uploadImageFromUrl_def)

lemma requests_bind_io:
  assumes "\<And>tr. filter is_request (snd (m tr)) = filter is_request tr"
    and "\<And>a tr. filter is_request (snd (f a tr)) = filter is_request tr"
  shows "filter is_request (snd (bind_io m f tr)) = filter is_request tr"
proof (cases "m tr")
  case (Pair r tr')
  then show ?thesis
    using assms(1) [of tr] assms(2)
    by (cases r) (simp_all add: bind_io_def)
qed

lemma requests_call_readFile_undefined:
  "filter is_request (snd (call_readFile_undefined tr)) = filter is_request tr"
  by (simp add: call_readFile_undefined_def)

lemma requests_uploadImageFromFile:
  "filter is_request (snd (uploadImageFromFile e f tr)) = filter is_request tr"
  unfolding uploadImageFromFile_def
  by (rule requests_bind_io)
     (simp_all add: requests_call_readFile requests_call_readFile_undefined
        requests_call_uploadImageBuffer split: file_field.split)

lemma requests_uploadVideoImageFromLocalPath:
  "filter is_request (snd (uploadVideoImageFromLocalPath e f tr)) = filter is_request tr"
  unfolding uploadVideoImageFromLocalPath_def
  by (rule requests_bind_io) (simp_all add: requests_call_readFile requests_call_uploadImageBuffer)

lemma requests_uploadVideoImageFromUrl:
  "filter is_request (snd (uploadVideoImageFromUrl e f tr)) = filter is_request tr"
  unfolding uploadVideoImageFromUrl_def
  by (rule requests_bind_io)
     (auto simp: requests_call_axios_get requests_call_uploadImageBuffer throw_io_def)

lemma requests_upload_path:
  "filter is_request (snd (upload_path e f tr)) = filter is_request tr"
  by (auto simp: upload_path_def isLocalFilePath_def requests_uploadVideoImageFromUrl
      requests_uploadVideoImageFromLocalPath split: prod.splits bool.splits if_splits)

lemma requests_upload_paths_loop:
  "filter is_request (snd (upload_paths_loop e i ps ids tr)) = filter is_request tr"
proof (induction ps arbitrary: i ids tr)
  case Nil
  then show ?case by simp
next
  case (Cons p ps)
  show ?case
  proof (cases "p = []")
    case True
    then show ?thesis using Cons.IH by simp
  next
    case False
    obtain r tr' where up: "upload_path e p tr = (r, tr')" by (cases "upload_path e p tr")
    have tr': "filter is_request tr' = filter is_request tr"
      using requests_upload_path [of e p tr] up by simp
    show ?thesis
      using False up tr' Cons.IH by (cases r) (simp_all)
  qed
qed

lemma requests_upload_files_loop:
  "filter is_request (snd (upload_files_loop e i fs ids tr)) = filter is_request tr"
proof (induction fs arbitrary: i ids tr)
  case Nil
  then show ?case by simp
next
  case (Cons f fs)
  show ?case
  proof (cases f)
    case None
    then show ?thesis using Cons.IH by simp
  next
    case (Some fl)
    obtain r tr' where up: "uploadImageFromFile e fl tr = (r, tr')"
      by (cases "uploadImageFromFile e fl tr")
    have tr': "filter is_request tr' = filter is_request tr"
      using requests_uploadImageFromFile [of e fl tr] up by simp
    show ?thesis
      using Some up tr' Cons.IH by (cases r) (simp_all)
  qed
qed

lemma requests_upload_video_images:
  "filter is_request (snd (upload_video_images e opts tr)) = filter is_request tr"
  by (simp add: upload_video_images_def requests_upload_files_loop requests_upload_paths_loop
      return_io_def)

section \<open>The video task: what is sent\<close>

lemma trace_history_id_of_video_response:
  "snd (history_id_of_video_response resp tr) = tr"
  by (simp add: history_id_of_video_response_def destructure_aigc_data_def bind_io_def
      throw_io_def return_io_def Let_def)

lemma createVideo_upload_failed:
  assumes "upload_video_images e opts tr = (Inl err, tr')"
  shows "createVideoGenerationTask e model prompt opts tr = (Inl err, tr')"
  using assms by (simp add: createVideoGenerationTask_def Let_def bind_io_def)

lemma createVideo_uploaded:
  assumes "upload_video_images e opts tr = (Inr uploadIDs, tr')"
  shows "createVideoGenerationTask e model prompt opts tr =
           (case request e tr' (video_request_of model prompt opts uploadIDs) of
              Inl m \<Rightarrow> (Inl (Thrown m), tr' @ [Request (video_request_of model prompt opts uploadIDs)])
            | Inr resp \<Rightarrow>
                history_id_of_video_response resp
                  (tr' @ [Request (video_request_of model prompt opts uploadIDs)]))"
  using assms
  by (cases "request e tr' (video_request_of model prompt opts uploadIDs)")
     (simp_all add: createVideoGenerationTask_def Let_def bind_io_def call_request_def
        rejected_def video_request_of_def video_payload_of_def)

lemma createVideo_trace:
  assumes "upload_video_images e opts tr = (Inr uploadIDs, tr')"
  shows "snd (createVideoGenerationTask e model prompt opts tr) =
           tr' @ [Request (video_request_of model prompt opts uploadIDs)]"
  unfolding createVideo_uploaded [OF assms]
  by (simp add: trace_history_id_of_video_response split: sum.splits)

lemma createVideo_requests:
  "filter is_request (snd (createVideoGenerationTask e model prompt opts [])) = []
   \<or> (\<exists>uploadIDs. filter is_request (snd (createVideoGenerationTask e model prompt opts []))
         = [Request (video_request_of model prompt opts uploadIDs)])"
proof (cases "upload_video_images e opts []")
  case (Pair r tr')
  have tr': "filter is_request tr' = []"
    using requests_upload_video_images [of e opts "[]"] Pair by simp
  show ?thesis
  proof (cases r)
    case (Inl err)
    then show ?thesis using Pair tr' createVideo_upload_failed [of e opts "[]" err tr'] by simp
  next
    case (Inr uploadIDs)
    then have "filter is_request (snd (createVideoGenerationTask e model prompt opts []))
                 = [Request (video_request_of model prompt opts uploadIDs)]"
      using Pair tr' createVideo_trace [of e opts "[]" uploadIDs tr' model prompt] by simp
    then show ?thesis by blast
  qed
qed

text \<open>
  C2.  Whenever \<open>createVideoGenerationTask\<close> sends its request, the payload's
  \<open>duration_ms\<close> is a thousand times the seconds of \<open>videoDuration\<close>, and the seconds
  are the family table's, the families tried in the order of the table: a model key
  containing \<open>veo3\<close> gets 8 whatever was requested; otherwise one containing \<open>sora2\<close>
  gets 12 for 12, 8 for 8 and else 4; otherwise one containing \<open>3.5_pro\<close> gets 12 for 12,
  10 for 10 and else 5; every other model gets 10 for 10 and else 5.
\<close>

theorem video_duration_follows_family_table:
  assumes "Request (GenerateVideo p) \<in> set (snd (createVideoGenerationTask e model prompt opts []))"
  shows "vp_duration_ms p = 1000 * vp_videoDuration p
       \<and> (str_includes model ''veo3'' \<longrightarrow> vp_videoDuration p = 8)
       \<and> (\<not> str_includes model ''veo3'' \<and> str_includes model ''sora2'' \<longrightarrow>
            vp_videoDuration p =
              (if duration opts = 12 then 12 else if duration opts = 8 then 8 else 4))
       \<and> (\<not> str_includes model ''veo3'' \<and> \<not> str_includes model ''sora2''
            \<and> str_includes model ''3.5_pro'' \<longrightarrow>
            vp_videoDuration p =
              (if duration opts = 12 then 12 else if duration opts = 10 then 10 else 5))
       \<and> (\<not> str_includes model ''veo3'' \<and> \<not> str_includes model ''sora2''
            \<and> \<not> str_includes model ''3.5_pro'' \<longrightarrow>
            vp_videoDuration p = (if duration opts = 10 then 10 else 5))"
proof -
  let ?T = "snd (createVideoGenerationTask e model prompt opts [])"
  have mem: "Request (GenerateVideo p) \<in> set (filter is_request ?T)"
    using assms by simp
  have "filter is_request ?T \<noteq> []"
  proof
    assume none: "filter is_request ?T = []"
    show False using mem unfolding none by simp
  qed
  then obtain uploadIDs where
    sent: "filter is_request ?T = [Request (video_request_of model prompt opts uploadIDs)]"
    using createVideo_requests [of e model prompt opts] by blast
  have "GenerateVideo p = video_request_of model prompt opts uploadIDs"
    using mem unfolding sent by simp
  then have ms: "vp_duration_ms p = fst (durationPolicy model (duration opts))"
    and d: "vp_videoDuration p = snd (durationPolicy model (duration opts))"
    by (simp_all add: video_request_of_def video_payload_of_def)
  show ?thesis
    unfolding ms d by (simp add: durationPolicy_def Let_def)
qed

lemmas video_eval =
  createVideoGenerationTask_def upload_video_images_def text_only_def steady_env_def Let_def
  bind_io_def return_io_def call_request_def rejected_def history_id_of_video_response_def
  destructure_aigc_data_def throw_io_def durationPolicy_def getVideoBenefitType_def
  str_includes_def sublist_Cons_right frame_image_def

theorem video_duration_follows_family_table_witness:
  "Request (GenerateVideo
      \<lparr>vp_model = ''dreamina_veo3'', vp_prompt = ''a cat'', vp_ratio = ''1:1'',
       vp_resolution = None, vp_benefit_type = ''generate_video_veo3'',
       vp_duration_ms = 8000, vp_videoDuration = 8,
       vp_first_frame_image = None, vp_end_frame_image = None\<rparr>)
     \<in> set (snd (createVideoGenerationTask steady_env ''dreamina_veo3'' ''a cat'' (text_only 10) []))
   \<and> Request (GenerateVideo
      \<lparr>vp_model = ''dreamina_sora2'', vp_prompt = ''a cat'', vp_ratio = ''1:1'',
       vp_resolution = None, vp_benefit_type = ''generate_video_sora2'',
       vp_duration_ms = 8000, vp_videoDuration = 8,
       vp_first_frame_image = None, vp_end_frame_image = None\<rparr>)
     \<in> set (snd (createVideoGenerationTask steady_env ''dreamina_sora2'' ''a cat'' (text_only 8) []))
   \<and> Request (GenerateVideo
      \<lparr>vp_model = ''vgfm_3.5_pro'', vp_prompt = ''a cat'', vp_ratio = ''1:1'',
       vp_resolution = None, vp_benefit_type = ''dreamina_video_seedance_15_pro'',
       vp_duration_ms = 12000, vp_videoDuration = 12,
       vp_first_frame_image = None, vp_end_frame_image = None\<rparr>)
     \<in> set (snd (createVideoGenerationTask steady_env ''vgfm_3.5_pro'' ''a cat'' (text_only 12) []))
   \<and> Request (GenerateVideo
      \<lparr>vp_model = ''vgfm_3.0'', vp_prompt = ''a cat'', vp_ratio = ''1:1'',
       vp_resolution = Some ''720p'', vp_benefit_type = ''basic_video_operation_vgfm_v_three'',
       vp_duration_ms = 5000, vp_videoDuration = 5,
       vp_first_frame_image = None, vp_end_frame_image = None\<rparr>)
     \<in> set (snd (createVideoGenerationTask steady_env ''vgfm_3.0'' ''a cat'' (text_only 7) []))"
proof -
  let ?veo = "\<lparr>vp_model = ''dreamina_veo3'', vp_prompt = ''a cat'', vp_ratio = ''1:1'',
       vp_resolution = None, vp_benefit_type = ''generate_video_veo3'',
       vp_duration_ms = 8000, vp_videoDuration = 8,
       vp_first_frame_image = None, vp_end_frame_image = None\<rparr>"
  let ?sora = "\<lparr>vp_model = ''dreamina_sora2'', vp_prompt = ''a cat'', vp_ratio = ''1:1'',
       vp_resolution = None, vp_benefit_type = ''generate_video_sora2'',
       vp_duration_ms = 8000, vp_videoDuration = 8,
       vp_first_frame_image = None, vp_end_frame_image = None\<rparr>"
  let ?pro = "\<lparr>vp_model = ''vgfm_3.5_pro'', vp_prompt = ''a cat'', vp_ratio = ''1:1'',
       vp_resolution = None, vp_benefit_type = ''dreamina_video_seedance_15_pro'',
       vp_duration_ms = 12000, vp_videoDuration = 12,
       vp_first_frame_image = None, vp_end_frame_image = None\<rparr>"
  let ?std = "\<lparr>vp_model = ''vgfm_3.0'', vp_prompt = ''a cat'', vp_ratio = ''1:1'',
       vp_resolution = Some ''720p'', vp_benefit_type = ''basic_video_operation_vgfm_v_three'',
       vp_duration_ms = 5000, vp_videoDuration = 5,
       vp_first_frame_image = None, vp_end_frame_image = None\<rparr>"
  have veo: "Request (GenerateVideo ?veo)
     \<in> set (snd (createVideoGenerationTask steady_env ''dreamina_veo3'' ''a cat'' (text_only 10) []))"
    by (simp add: video_eval)
  have sora: "Request (GenerateVideo ?sora)
     \<in> set (snd (createVideoGenerationTask steady_env ''dreamina_sora2'' ''a cat'' (text_only 8) []))"
    by (simp add: video_eval)
  have pro: "Request (GenerateVideo ?pro)
     \<in> set (snd (createVideoGenerationTask steady_env ''vgfm_3.5_pro'' ''a cat'' (text_only 12) []))"
    by (simp add: video_eval)
  have std: "Request (GenerateVideo ?std)
     \<in> set (snd (createVideoGenerationTask steady_env ''vgfm_3.0'' ''a cat'' (text_only 7) []))"
    by (simp add: video_eval)
  note video_duration_follows_family_table [OF veo] video_duration_follows_family_table [OF sora]
    video_duration_follows_family_table [OF pro] video_duration_follows_family_table [OF std]
  with veo sora pro std show ?thesis by blast
qed

section \<open>The composition task: uploads\<close>

lemma upload_step:
  "(case img of ImgUrl url \<Rightarrow> call_uploadImageFromUrl e url tr
              | ImgBuffer buf \<Rightarrow> call_uploadImageBuffer e buf tr)
   = (rejected (upload_answer e tr img), tr @ [upload_event img])"
  by (cases img) (simp_all add: call_uploadImageFromUrl_def call_uploadImageBuffer_def)

lemma upload_images_all:
  assumes "\<forall>i < length images. isl (upload_answer e (tr @ map upload_event (take i images)) (images ! i)) = False"
  shows "upload_images e images ids tr =
           (Inr (ids @ map (\<lambda>i. projr (upload_answer e (tr @ map upload_event (take i images)) (images ! i)))
                         [0..<length images]),
            tr @ map upload_event images)"
  using assms
proof (induction images arbitrary: ids tr)
  case Nil
  then show ?case by simp
next
  case (Cons img images)
  from Cons.prems have ok0: "\<not> isl (upload_answer e tr img)" by auto
  then obtain u where u: "upload_answer e tr img = Inr u" by (cases "upload_answer e tr img") auto
  have rest: "\<forall>i < length images.
      isl (upload_answer e ((tr @ [upload_event img]) @ map upload_event (take i images)) (images ! i)) = False"
  proof (intro allI impI)
    fix i assume "i < length images"
    then have "Suc i < length (img # images)" by simp
    with Cons.prems have "isl (upload_answer e (tr @ map upload_event (take (Suc i) (img # images))) ((img # images) ! Suc i)) = False"
      by blast
    then show "isl (upload_answer e ((tr @ [upload_event img]) @ map upload_event (take i images)) (images ! i)) = False"
      by simp
  qed
  have shift: "map (\<lambda>i. projr (upload_answer e (tr @ map upload_event (take i (img # images))) ((img # images) ! i)))
                 [0..<length (img # images)]
             = u # map (\<lambda>i. projr (upload_answer e ((tr @ [upload_event img]) @ map upload_event (take i images)) (images ! i)))
                 [0..<length images]"
  proof -
    have "[0..<length (img # images)] = 0 # map Suc [0..<length images]"
      by (simp add: upt_conv_Cons map_Suc_upt del: upt_Suc)
    then show ?thesis using u by (simp add: comp_def del: upt_Suc)
  qed
  show ?case
    unfolding shift
    using u Cons.IH [OF rest, of "ids @ [u]"]
    by (simp add: upload_step rejected_def)
qed

lemma upload_images_fail:
  assumes "k < length images"
    and "\<forall>i < k. isl (upload_answer e (tr @ map upload_event (take i images)) (images ! i)) = False"
    and "upload_answer e (tr @ map upload_event (take k images)) (images ! k) = Inl m"
  shows "upload_images e images ids tr =
           (Inl (APIException API_IMAGE_GENERATION_FAILED (ImageUploadFailed m)),
            tr @ map upload_event (take (Suc k) images))"
  using assms
proof (induction images arbitrary: k ids tr)
  case Nil
  then show ?case by simp
next
  case (Cons img images)
  show ?case
  proof (cases k)
    case 0
    with Cons.prems(3) have "upload_answer e tr img = Inl m" by simp
    then show ?thesis using 0 by (simp add: upload_step rejected_def)
  next
    case (Suc j)
    with Cons.prems(2) have "isl (upload_answer e (tr @ map upload_event (take 0 (img # images))) ((img # images) ! 0)) = False"
      by blast
    then obtain u where u: "upload_answer e tr img = Inr u"
      by (cases "upload_answer e tr img") auto
    have j: "j < length images" using Cons.prems(1) Suc by simp
    have before: "\<forall>i < j. isl (upload_answer e ((tr @ [upload_event img]) @ map upload_event (take i images)) (images ! i)) = False"
    proof (intro allI impI)
      fix i assume "i < j"
      then have "Suc i < k" using Suc by simp
      with Cons.prems(2) have "isl (upload_answer e (tr @ map upload_event (take (Suc i) (img # images))) ((img # images) ! Suc i)) = False"
        by blast
      then show "isl (upload_answer e ((tr @ [upload_event img]) @ map upload_event (take i images)) (images ! i)) = False"
        by simp
    qed
    have at: "upload_answer e ((tr @ [upload_event img]) @ map upload_event (take j images)) (images ! j) = Inl m"
      using Cons.prems(3) Suc by simp
    show ?thesis
      using u Suc Cons.IH [OF j before at, of "ids @ [u]"]
      by (simp add: upload_step rejected_def)
  qed
qed

text \<open>
  C5.  \<open>createImageCompositionTask\<close> uploads the images one at a time in the caller's
  order.  When every upload succeeds, the trace is one upload per image, in order, followed
  by the generation request, whose \<open>i\<close>-th asset id is the answer for the \<open>i\<close>-th
  image.  When the upload at index \<open>k\<close> is the first to be rejected, the task ends at
  once with the upload-failure exception: the trace holds the uploads of the images up to
  \<open>k\<close> and nothing else, so no later image is uploaded and no request is sent.
\<close>

theorem composition_uploads_in_order_and_abort:
  "((\<forall>i < length images. \<not> isl (answer_at e images i)) \<longrightarrow>
      snd (createImageCompositionTask e model prompt images []) =
        map upload_event images @
        [Request (GenerateBlend
           \<lparr>bp_model = model, bp_prompt = prompt, bp_imageCount = length images,
            bp_uploadedImageIds = map (\<lambda>i. projr (answer_at e images i)) [0..<length images]\<rparr>)])
   \<and> (\<forall>k m. k < length images \<and> (\<forall>i < k. \<not> isl (answer_at e images i))
          \<and> answer_at e images k = Inl m \<longrightarrow>
        createImageCompositionTask e model prompt images [] =
          (Inl (APIException API_IMAGE_GENERATION_FAILED (ImageUploadFailed m)),
           map upload_event (take (Suc k) images)))"
proof (intro conjI impI allI)
  assume ok: "\<forall>i < length images. \<not> isl (answer_at e images i)"
  then have "\<forall>i < length images.
      isl (upload_answer e ([] @ map upload_event (take i images)) (images ! i)) = False"
    by (simp add: answer_at_def)
  from upload_images_all [OF this, of "[]"]
  have up: "upload_images e images [] [] =
      (Inr (map (\<lambda>i. projr (answer_at e images i)) [0..<length images]), map upload_event images)"
    by (simp add: answer_at_def)
  show "snd (createImageCompositionTask e model prompt images []) =
        map upload_event images @
        [Request (GenerateBlend
           \<lparr>bp_model = model, bp_prompt = prompt, bp_imageCount = length images,
            bp_uploadedImageIds = map (\<lambda>i. projr (answer_at e images i)) [0..<length images]\<rparr>)]"
    by (simp add: createImageCompositionTask_def up bind_io_def call_request_def
        history_id_of_image_response_def destructure_aigc_data_def throw_io_def return_io_def
        Let_def split: sum.splits prod.splits)
next
  fix k m
  assume h: "k < length images \<and> (\<forall>i < k. \<not> isl (answer_at e images i))
          \<and> answer_at e images k = Inl m"
  then have k: "k < length images"
    and before: "\<forall>i < k. isl (upload_answer e ([] @ map upload_event (take i images)) (images ! i)) = False"
    and at: "upload_answer e ([] @ map upload_event (take k images)) (images ! k) = Inl m"
    by (simp_all add: answer_at_def)
  from upload_images_fail [OF k before at, of "[]"]
  have up: "upload_images e images [] [] =
      (Inl (APIException API_IMAGE_GENERATION_FAILED (ImageUploadFailed m)),
       map upload_event (take (Suc k) images))"
    by simp
  show "createImageCompositionTask e model prompt images [] =
          (Inl (APIException API_IMAGE_GENERATION_FAILED (ImageUploadFailed m)),
           map upload_event (take (Suc k) images))"
    by (simp add: createImageCompositionTask_def bind_io_def up)
qed


theorem composition_uploads_in_order_and_abort_witness:
  "snd (createImageCompositionTask picky_env ''m'' ''p'' [ImgUrl ''a'', ImgBuffer [7]] []) =
     [UploadImageFromUrl ''a'', UploadImageBuffer [7],
      Request (GenerateBlend \<lparr>bp_model = ''m'', bp_prompt = ''p'', bp_imageCount = 2,
                             bp_uploadedImageIds = [''asset:a'', ''asset'']\<rparr>)]
   \<and> createImageCompositionTask picky_env ''m'' ''p'' [ImgUrl ''a'', ImgUrl ''bad'', ImgUrl ''c''] [] =
       (Inl (APIException API_IMAGE_GENERATION_FAILED (ImageUploadFailed ''boom'')),
        [UploadImageFromUrl ''a'', UploadImageFromUrl ''bad''])"
proof -
  have ok: "\<forall>i < length [ImgUrl ''a'', ImgBuffer [7]].
              \<not> isl (answer_at picky_env [ImgUrl ''a'', ImgBuffer [7]] i)"
    by (simp add: answer_at_def picky_env_def less_Suc_eq)
  have bad: "Suc 0 < length [ImgUrl ''a'', ImgUrl ''bad'', ImgUrl ''c'']
      \<and> (\<forall>i < Suc 0. \<not> isl (answer_at picky_env [ImgUrl ''a'', ImgUrl ''bad'', ImgUrl ''c''] i))
      \<and> answer_at picky_env [ImgUrl ''a'', ImgUrl ''bad'', ImgUrl ''c''] (Suc 0) = Inl ''boom''"
    by (simp add: answer_at_def picky_env_def)
  from composition_uploads_in_order_and_abort
         [of "[ImgUrl ''a'', ImgBuffer [7]]" picky_env "''m''" "''p''"] ok
  have first: "snd (createImageCompositionTask picky_env ''m'' ''p'' [ImgUrl ''a'', ImgBuffer [7]] []) =
     [UploadImageFromUrl ''a'', UploadImageBuffer [7],
      Request (GenerateBlend \<lparr>bp_model = ''m'', bp_prompt = ''p'', bp_imageCount = 2,
                             bp_uploadedImageIds = [''asset:a'', ''asset'']\<rparr>)]"
    by (simp add: answer_at_def picky_env_def upt_rec)
  from composition_uploads_in_order_and_abort
         [of "[ImgUrl ''a'', ImgUrl ''bad'', ImgUrl ''c'']" picky_env "''m''" "''p''"] bad
  have "createImageCompositionTask picky_env ''m'' ''p'' [ImgUrl ''a'', ImgUrl ''bad'', ImgUrl ''c''] [] =
       (Inl (APIException API_IMAGE_GENERATION_FAILED (ImageUploadFailed ''boom'')),
        map upload_event (take (Suc (Suc 0)) [ImgUrl ''a'', ImgUrl ''bad'', ImgUrl ''c'']))"
    by blast
  then have second: "createImageCompositionTask picky_env ''m'' ''p'' [ImgUrl ''a'', ImgUrl ''bad'', ImgUrl ''c''] [] =
       (Inl (APIException API_IMAGE_GENERATION_FAILED (ImageUploadFailed ''boom'')),
        [UploadImageFromUrl ''a'', UploadImageFromUrl ''bad''])"
    by simp
  from first second show ?thesis by (rule conjI)
qed

section \<open>Where the image count is checked\<close>





section \<open>The video task: upload failures\<close>

lemma upload_paths_loop_later_returns:
  "0 < i \<Longrightarrow> \<exists>ids'. fst (upload_paths_loop e i ps ids tr) = Inr ids'"
proof (induction ps arbitrary: i ids tr)
  case Nil
  then show ?case by simp
next
  case (Cons p ps)
  show ?case
  proof (cases "p = []")
    case True
    then show ?thesis using Cons.IH [of "Suc i"] by simp
  next
    case False
    obtain r tr' where up: "upload_path e p tr = (r, tr')" by (cases "upload_path e p tr")
    show ?thesis
      using False up Cons.prems Cons.IH [of "Suc i"] by (cases r) simp_all
  qed
qed

lemma upload_files_loop_later_returns:
  "0 < i \<Longrightarrow> \<exists>ids'. fst (upload_files_loop e i fs ids tr) = Inr ids'"
proof (induction fs arbitrary: i ids tr)
  case Nil
  then show ?case by simp
next
  case (Cons f fs)
  show ?case
  proof (cases f)
    case None
    then show ?thesis using Cons.IH [of "Suc i"] by simp
  next
    case (Some fl)
    obtain r tr' where up: "uploadImageFromFile e fl tr = (r, tr')"
      by (cases "uploadImageFromFile e fl tr")
    show ?thesis
      using Some up Cons.prems Cons.IH [of "Suc i"] by (cases r) simp_all
  qed
qed

lemma upload_video_images_first_raises:
  assumes "first_image_upload e opts = Some (Inl err, tr1)"
  shows "upload_video_images e opts [] =
           (Inl (APIException API_REQUEST_FAILED (FirstFrameUploadFailed (error_message err))), tr1)"
proof (cases "files opts")
  case Nil
  with assms obtain p rest where p: "filePaths opts = p # rest" "p \<noteq> []"
    "upload_path e p [] = (Inl err, tr1)"
    by (auto simp: first_image_upload_def split: list.splits if_splits)
  then show ?thesis using Nil by (simp add: upload_video_images_def)
next
  case (Cons f rest)
  with assms obtain fl where "f = Some fl" "uploadImageFromFile e fl [] = (Inl err, tr1)"
    by (auto simp: first_image_upload_def split: option.splits)
  then show ?thesis using Cons by (simp add: upload_video_images_def)
qed

lemma upload_video_images_first_ok:
  assumes "\<forall>err tr1. first_image_upload e opts \<noteq> Some (Inl err, tr1)"
  shows "\<exists>uploadIDs. fst (upload_video_images e opts []) = Inr uploadIDs"
proof (cases "files opts")
  case Nil
  show ?thesis
  proof (cases "filePaths opts")
    case Nil': Nil
    then show ?thesis using Nil by (simp add: upload_video_images_def return_io_def)
  next
    case (Cons p rest)
    show ?thesis
    proof (cases "p = []")
      case True
      then show ?thesis
        using Nil Cons upload_paths_loop_later_returns [of "Suc 0" e rest "[]" "[]"]
        by (simp add: upload_video_images_def)
    next
      case False
      obtain r tr' where up: "upload_path e p [] = (r, tr')" by (cases "upload_path e p []")
      with assms Nil Cons False obtain u where r: "r = Inr u"
        by (cases r) (auto simp: first_image_upload_def)
      show ?thesis
        using Nil Cons False up r
          upload_paths_loop_later_returns [of "Suc 0" e rest _ tr']
        by (simp add: upload_video_images_def)
    qed
  qed
next
  case (Cons f rest)
  show ?thesis
  proof (cases f)
    case None
    then show ?thesis
      using Cons upload_files_loop_later_returns [of "Suc 0" e rest "[]" "[]"]
      by (simp add: upload_video_images_def)
  next
    case (Some fl)
    obtain r tr' where up: "uploadImageFromFile e fl [] = (r, tr')"
      by (cases "uploadImageFromFile e fl []")
    with assms Cons Some obtain u where r: "r = Inr u"
      by (cases r) (auto simp: first_image_upload_def)
    show ?thesis
      using Cons Some up r upload_files_loop_later_returns [of "Suc 0" e rest _ tr']
      by (simp add: upload_video_images_def)
  qed
qed

text \<open>
  C4.  In \<open>createVideoGenerationTask\<close>, when the upload of the image at index 0 raises,
  the task ends at once with the first-frame upload-failure exception, the trace holding
  that upload attempt only (no later upload, no request).  When it does not raise, the
  task always reaches submission: exactly one request is sent, whatever the uploads at
  later indices do.  A raised failure at a later index only moves the loop on: the upload
  list is unchanged, so the request is built without that image.  Both loops (uploaded
  files, paths) behave so.
\<close>

theorem video_first_upload_fatal_later_tolerated:
  "(first_image_upload e opts = Some (Inl err, tr1) \<longrightarrow>
      createVideoGenerationTask e model prompt opts [] =
        (Inl (APIException API_REQUEST_FAILED (FirstFrameUploadFailed (error_message err))), tr1))
   \<and> ((\<forall>err tr1. first_image_upload e opts \<noteq> Some (Inl err, tr1)) \<longrightarrow>
        (\<exists>uploadIDs. filter is_request (snd (createVideoGenerationTask e model prompt opts []))
           = [Request (video_request_of model prompt opts uploadIDs)]))
   \<and> (0 < i \<and> p \<noteq> [] \<and> upload_path e p tr = (Inl err', tr') \<longrightarrow>
        upload_paths_loop e i (p # ps) ids tr = upload_paths_loop e (Suc i) ps ids tr')
   \<and> (0 < i \<and> uploadImageFromFile e fl tr = (Inl err', tr') \<longrightarrow>
        upload_files_loop e i (Some fl # fs) ids tr = upload_files_loop e (Suc i) fs ids tr')"
proof (intro conjI impI)
  assume "first_image_upload e opts = Some (Inl err, tr1)"
  from upload_video_images_first_raises [OF this]
  show "createVideoGenerationTask e model prompt opts [] =
        (Inl (APIException API_REQUEST_FAILED (FirstFrameUploadFailed (error_message err))), tr1)"
    by (rule createVideo_upload_failed)
next
  assume "\<forall>err tr1. first_image_upload e opts \<noteq> Some (Inl err, tr1)"
  from upload_video_images_first_ok [OF this]
  obtain uploadIDs where "fst (upload_video_images e opts []) = Inr uploadIDs" by blast
  then obtain tr2 where up: "upload_video_images e opts [] = (Inr uploadIDs, tr2)"
    by (cases "upload_video_images e opts []") simp
  have "filter is_request tr2 = []"
    using requests_upload_video_images [of e opts "[]"] up by simp
  then have "filter is_request (snd (createVideoGenerationTask e model prompt opts []))
           = [Request (video_request_of model prompt opts uploadIDs)]"
    by (simp add: createVideo_trace [OF up])
  then show "\<exists>uploadIDs. filter is_request (snd (createVideoGenerationTask e model prompt opts []))
           = [Request (video_request_of model prompt opts uploadIDs)]"
    by blast
next
  assume "0 < i \<and> p \<noteq> [] \<and> upload_path e p tr = (Inl err', tr')"
  then show "upload_paths_loop e i (p # ps) ids tr = upload_paths_loop e (Suc i) ps ids tr'"
    by simp
next
  assume "0 < i \<and> uploadImageFromFile e fl tr = (Inl err', tr')"
  then show "upload_files_loop e i (Some fl # fs) ids tr = upload_files_loop e (Suc i) fs ids tr'"
    by simp
qed

lemmas upload_eval =
  upload_path_def isLocalFilePath_def startsWith_def uploadVideoImageFromUrl_def
  uploadVideoImageFromLocalPath_def uploadImageFromFile_def call_axios_get_def
  call_readFile_def call_uploadImageBuffer_def bind_io_def throw_io_def return_io_def
  rejected_def

theorem video_first_upload_fatal_later_tolerated_witness:
  "first_image_upload picky_env (with_paths [''bad'', ''http://x/b.png''])
     = Some (Inl (Thrown ''boom''), [AxiosGet ''bad''])
   \<and> createVideoGenerationTask picky_env ''m'' ''p'' (with_paths [''bad'', ''http://x/b.png'']) []
     = (Inl (APIException API_REQUEST_FAILED (FirstFrameUploadFailed ''boom'')), [AxiosGet ''bad''])
   \<and> first_image_upload picky_env (with_paths [''http://x/a.png'', ''bad''])
     = Some (Inr ''asset'', [AxiosGet ''http://x/a.png'', UploadImageBuffer [4, 5, 6]])
   \<and> filter is_request
        (snd (createVideoGenerationTask picky_env ''m'' ''p'' (with_paths [''http://x/a.png'', ''bad'']) []))
     = [Request (video_request_of ''m'' ''p'' (with_paths [''http://x/a.png'', ''bad'']) [''asset''])]
   \<and> upload_path picky_env ''bad'' [] = (Inl (Thrown ''boom''), [AxiosGet ''bad''])
   \<and> upload_paths_loop picky_env (Suc 0) [''bad''] [''asset''] [] = (Inr [''asset''], [AxiosGet ''bad''])
   \<and> uploadImageFromFile picky_env missing_file [] = (Inl (Thrown ''ENOENT''), [FsReadFile ''/missing''])
   \<and> upload_files_loop picky_env (Suc 0) [Some missing_file] [''asset''] []
     = (Inr [''asset''], [FsReadFile ''/missing''])"
proof -
  have a: "first_image_upload picky_env (with_paths [''bad'', ''http://x/b.png''])
     = Some (Inl (Thrown ''boom''), [AxiosGet ''bad''])"
    by (simp add: first_image_upload_def with_paths_def picky_env_def upload_eval)
  have b: "first_image_upload picky_env (with_paths [''http://x/a.png'', ''bad''])
     = Some (Inr ''asset'', [AxiosGet ''http://x/a.png'', UploadImageBuffer [4, 5, 6]])"
    by (simp add: first_image_upload_def with_paths_def picky_env_def upload_eval)
  have c: "0 < Suc 0 \<and> ''bad'' \<noteq> [] \<and> upload_path picky_env ''bad'' [] = (Inl (Thrown ''boom''), [AxiosGet ''bad''])"
    by (simp add: picky_env_def upload_eval)
  have d: "0 < Suc 0 \<and> uploadImageFromFile picky_env missing_file [] = (Inl (Thrown ''ENOENT''), [FsReadFile ''/missing''])"
    by (simp add: picky_env_def missing_file_def upload_eval)
  note t1 = video_first_upload_fatal_later_tolerated
    [where e = picky_env and opts = "with_paths [''bad'', ''http://x/b.png'']"
       and err = "Thrown ''boom''" and ?tr1.0 = "[AxiosGet ''bad'']" and model = "''m''" and prompt = "''p''"
       and i = "Suc 0" and p = "''bad''" and tr = "[]" and err' = "Thrown ''boom''"
       and tr' = "[AxiosGet ''bad'']" and ps = "[]" and ids = "[''asset'']"
       and fl = missing_file and fs = "[]"]
  note t2 = video_first_upload_fatal_later_tolerated
    [where e = picky_env and opts = "with_paths [''http://x/a.png'', ''bad'']"
       and model = "''m''" and prompt = "''p''"
       and i = "Suc 0" and tr = "[]" and err' = "Thrown ''ENOENT''"
       and tr' = "[FsReadFile ''/missing'']" and ids = "[''asset'']"
       and fl = missing_file and fs = "[]"]
  have a': "createVideoGenerationTask picky_env ''m'' ''p'' (with_paths [''bad'', ''http://x/b.png'']) []
     = (Inl (APIException API_REQUEST_FAILED (FirstFrameUploadFailed ''boom'')), [AxiosGet ''bad''])"
    using t1 a by simp
  have "\<exists>uploadIDs. filter is_request
        (snd (createVideoGenerationTask picky_env ''m'' ''p'' (with_paths [''http://x/a.png'', ''bad'']) []))
     = [Request (video_request_of ''m'' ''p'' (with_paths [''http://x/a.png'', ''bad'']) uploadIDs)]"
    using t2 b by simp
  then have b': "filter is_request
        (snd (createVideoGenerationTask picky_env ''m'' ''p'' (with_paths [''http://x/a.png'', ''bad'']) []))
     = [Request (video_request_of ''m'' ''p'' (with_paths [''http://x/a.png'', ''bad'']) [''asset''])]"
    by (simp add: with_paths_def picky_env_def video_eval upload_eval video_request_of_def
        video_payload_of_def)
  have c': "upload_paths_loop picky_env (Suc 0) [''bad''] [''asset''] [] = (Inr [''asset''], [AxiosGet ''bad''])"
    using t1 c by simp
  have d': "upload_files_loop picky_env (Suc 0) [Some missing_file] [''asset''] []
     = (Inr [''asset''], [FsReadFile ''/missing''])"
    using t2 d by simp
  from a a' b b' c c' d d' show ?thesis by simp
qed

lemma video_response_never_first_frame_error:
  "fst (history_id_of_video_response resp tr) \<noteq> Inl (APIException API_REQUEST_FAILED m)"
  by (simp add: history_id_of_video_response_def destructure_aigc_data_def bind_io_def
      throw_io_def return_io_def Let_def)

lemma upload_paths_loop_append:
  "upload_paths_loop e i (xs @ ys) ids tr =
     (case upload_paths_loop e i xs ids tr of
        (Inl err, tr') \<Rightarrow> (Inl err, tr')
      | (Inr ids', tr') \<Rightarrow> upload_paths_loop e (i + length xs) ys ids' tr')"
proof (induction xs arbitrary: i ids tr)
  case Nil
  show ?case by simp
next
  case (Cons p ps)
  show ?case
  proof (cases "p = []")
    case True
    then show ?thesis
      using Cons.IH [of "Suc i" ids tr] by (simp split: prod.splits sum.splits)
  next
    case False
    obtain r tr' where up: "upload_path e p tr = (r, tr')" by (cases "upload_path e p tr")
    show ?thesis
    proof (cases r)
      case (Inr u)
      then show ?thesis
        using False up Cons.IH [of "Suc i" "if u \<noteq> [] then ids @ [u] else ids" tr']
        by (simp split: prod.splits sum.splits)
    next
      case (Inl err)
      then show ?thesis
        using False up Cons.IH [of "Suc i" ids tr'] by (simp split: prod.splits sum.splits)
    qed
  qed
qed

lemma upload_paths_loop_falsy_entry:
  "upload_paths_loop e i (pre @ [] # post) ids tr =
     (case upload_paths_loop e i pre ids tr of
        (Inl err, tr') \<Rightarrow> (Inl err, tr')
      | (Inr ids', tr') \<Rightarrow> upload_paths_loop e (Suc (i + length pre)) post ids' tr')"
  by (simp add: upload_paths_loop_append split: prod.splits sum.splits)

lemma upload_paths_loop_falsy_only:
  "list_all (\<lambda>p. p = []) ps \<Longrightarrow> upload_paths_loop e i ps ids tr = (Inr ids, tr)"
  by (induction ps arbitrary: i) simp_all

text \<open>
  C10.  A falsy entry of \<open>filePaths\<close>, at whatever index, is skipped without raising:
  the loop over a list with a falsy entry is the loop over the entries before it, followed
  (unless that has raised) by the loop over the entries after it at the indices they have
  in the whole list; the falsy entry itself leaves no call in the trace, no id in the
  upload list and no error.  A list of falsy entries only uploads nothing and raises
  nothing.  With a falsy entry at index 0 and one path after it: if that path uploads,
  its asset id is the sole element of the upload list and fills the first-frame slot, the
  end-frame slot staying empty; if its upload raises, the failure is tolerated (index 1),
  the request is sent without any frame, and the task never ends with the first-frame
  upload-failure exception.
\<close>

theorem falsy_first_path_is_skipped:
  "upload_paths_loop e i (pre @ [] # post) ids tr =
     (case upload_paths_loop e i pre ids tr of
        (Inl err, tr') \<Rightarrow> (Inl err, tr')
      | (Inr ids', tr') \<Rightarrow> upload_paths_loop e (Suc (i + length pre)) post ids' tr')
   \<and> (files opts = [] \<and> filePaths opts = pre @ [] # post \<longrightarrow>
        upload_video_images e opts tr =
          (case upload_paths_loop e 0 pre [] tr of
             (Inl err, tr') \<Rightarrow> (Inl err, tr')
           | (Inr ids', tr') \<Rightarrow> upload_paths_loop e (Suc (length pre)) post ids' tr'))
   \<and> (files opts = [] \<and> list_all (\<lambda>p. p = []) (filePaths opts) \<longrightarrow>
        upload_video_images e opts tr = (Inr [], tr))
   \<and> (files opts = [] \<and> filePaths opts = [[], p] \<and> p \<noteq> [] \<longrightarrow>
     (upload_path e p [] = (Inr u, tr1) \<and> u \<noteq> [] \<longrightarrow>
        snd (createVideoGenerationTask e model prompt opts []) =
          tr1 @ [Request (video_request_of model prompt opts [u])]
        \<and> vp_first_frame_image (video_payload_of model prompt opts [u]) = Some u
        \<and> vp_end_frame_image (video_payload_of model prompt opts [u]) = None)
     \<and> (upload_path e p [] = (Inl err, tr1) \<longrightarrow>
        snd (createVideoGenerationTask e model prompt opts []) =
          tr1 @ [Request (video_request_of model prompt opts [])]
        \<and> vp_first_frame_image (video_payload_of model prompt opts []) = None
        \<and> vp_end_frame_image (video_payload_of model prompt opts []) = None
        \<and> (\<forall>m. fst (createVideoGenerationTask e model prompt opts [])
               \<noteq> Inl (APIException API_REQUEST_FAILED m))))"
proof (intro impI conjI allI)
  show "upload_paths_loop e i (pre @ [] # post) ids tr =
     (case upload_paths_loop e i pre ids tr of
        (Inl err, tr') \<Rightarrow> (Inl err, tr')
      | (Inr ids', tr') \<Rightarrow> upload_paths_loop e (Suc (i + length pre)) post ids' tr')"
    by (rule upload_paths_loop_falsy_entry)
next
  assume "files opts = [] \<and> filePaths opts = pre @ [] # post"
  then show "upload_video_images e opts tr =
          (case upload_paths_loop e 0 pre [] tr of
             (Inl err, tr') \<Rightarrow> (Inl err, tr')
           | (Inr ids', tr') \<Rightarrow> upload_paths_loop e (Suc (length pre)) post ids' tr')"
    using upload_paths_loop_falsy_entry [of e 0 pre post "[]" tr]
    by (simp add: upload_video_images_def split: prod.splits sum.splits)
next
  assume "files opts = [] \<and> list_all (\<lambda>p. p = []) (filePaths opts)"
  then show "upload_video_images e opts tr = (Inr [], tr)"
    by (simp add: upload_video_images_def upload_paths_loop_falsy_only return_io_def)
next
  assume h: "files opts = [] \<and> filePaths opts = [[], p] \<and> p \<noteq> []"
    and ok: "upload_path e p [] = (Inr u, tr1) \<and> u \<noteq> []"
  then have up: "upload_video_images e opts [] = (Inr [u], tr1)"
    by (simp add: upload_video_images_def)
  show "snd (createVideoGenerationTask e model prompt opts []) =
          tr1 @ [Request (video_request_of model prompt opts [u])]"
    by (rule createVideo_trace [OF up])
  show "vp_first_frame_image (video_payload_of model prompt opts [u]) = Some u"
    using ok by (simp add: video_payload_of_def frame_image_def)
  show "vp_end_frame_image (video_payload_of model prompt opts [u]) = None"
    by (simp add: video_payload_of_def frame_image_def)
next
  assume h: "files opts = [] \<and> filePaths opts = [[], p] \<and> p \<noteq> []"
    and bad: "upload_path e p [] = (Inl err, tr1)"
  then have up: "upload_video_images e opts [] = (Inr [], tr1)"
    by (simp add: upload_video_images_def)
  show "snd (createVideoGenerationTask e model prompt opts []) =
          tr1 @ [Request (video_request_of model prompt opts [])]"
    by (rule createVideo_trace [OF up])
  show "vp_first_frame_image (video_payload_of model prompt opts []) = None"
    by (simp add: video_payload_of_def)
  show "vp_end_frame_image (video_payload_of model prompt opts []) = None"
    by (simp add: video_payload_of_def)
  show "fst (createVideoGenerationTask e model prompt opts [])
               \<noteq> Inl (APIException API_REQUEST_FAILED m)" for m
    unfolding createVideo_uploaded [OF up]
    by (simp add: video_response_never_first_frame_error split: sum.splits)
qed

theorem falsy_first_path_is_skipped_witness:
  "files (with_paths [[], ''http://x/b.png'']) = []
   \<and> upload_path picky_env ''http://x/b.png'' []
       = (Inr ''asset'', [AxiosGet ''http://x/b.png'', UploadImageBuffer [4, 5, 6]])
   \<and> snd (createVideoGenerationTask picky_env ''m'' ''p'' (with_paths [[], ''http://x/b.png'']) [])
       = [AxiosGet ''http://x/b.png'', UploadImageBuffer [4, 5, 6],
          Request (video_request_of ''m'' ''p'' (with_paths [[], ''http://x/b.png'']) [''asset''])]
   \<and> vp_first_frame_image (video_payload_of ''m'' ''p'' (with_paths [[], ''http://x/b.png'']) [''asset''])
       = Some ''asset''
   \<and> upload_path picky_env ''bad'' [] = (Inl (Thrown ''boom''), [AxiosGet ''bad''])
   \<and> snd (createVideoGenerationTask picky_env ''m'' ''p'' (with_paths [[], ''bad'']) [])
       = [AxiosGet ''bad'', Request (video_request_of ''m'' ''p'' (with_paths [[], ''bad'']) [])]
   \<and> fst (createVideoGenerationTask picky_env ''m'' ''p'' (with_paths [[], ''bad'']) [])
       = Inr (Str ''h1'')
   \<and> upload_video_images picky_env (with_paths [''http://x/a.png'', [], ''bad'']) []
       = (Inr [''asset''],
          [AxiosGet ''http://x/a.png'', UploadImageBuffer [4, 5, 6], AxiosGet ''bad''])
   \<and> upload_video_images picky_env (with_paths [[], []]) [] = (Inr [], [])"
proof -
  have h1: "files (with_paths [[], ''http://x/b.png'']) = []
      \<and> filePaths (with_paths [[], ''http://x/b.png'']) = [[], ''http://x/b.png'']
      \<and> ''http://x/b.png'' \<noteq> []"
    by (simp add: with_paths_def)
  have u1: "upload_path picky_env ''http://x/b.png'' []
       = (Inr ''asset'', [AxiosGet ''http://x/b.png'', UploadImageBuffer [4, 5, 6]]) \<and> ''asset'' \<noteq> []"
    by (simp add: picky_env_def upload_eval)
  have h2: "files (with_paths [[], ''bad'']) = []
      \<and> filePaths (with_paths [[], ''bad'']) = [[], ''bad''] \<and> ''bad'' \<noteq> []"
    by (simp add: with_paths_def)
  have u2: "upload_path picky_env ''bad'' [] = (Inl (Thrown ''boom''), [AxiosGet ''bad''])"
    by (simp add: picky_env_def upload_eval)
  note t1 = falsy_first_path_is_skipped
    [where opts = "with_paths [[], ''http://x/b.png'']" and p = "''http://x/b.png''"
       and e = picky_env and u = "''asset''"
       and ?tr1.0 = "[AxiosGet ''http://x/b.png'', UploadImageBuffer [4, 5, 6]]"
       and model = "''m''" and prompt = "''p''",
     THEN conjunct2, THEN conjunct2, THEN conjunct2]
  note t2 = falsy_first_path_is_skipped
    [where opts = "with_paths [[], ''bad'']" and p = "''bad''"
       and e = picky_env and err = "Thrown ''boom''" and ?tr1.0 = "[AxiosGet ''bad'']"
       and model = "''m''" and prompt = "''p''",
     THEN conjunct2, THEN conjunct2, THEN conjunct2]
  have r: "fst (createVideoGenerationTask picky_env ''m'' ''p'' (with_paths [[], ''bad'']) [])
       = Inr (Str ''h1'')"
    by (simp add: with_paths_def picky_env_def video_eval upload_eval)
  have h3: "files (with_paths [''http://x/a.png'', [], ''bad'']) = []
      \<and> filePaths (with_paths [''http://x/a.png'', [], ''bad'']) = [''http://x/a.png''] @ [] # [''bad'']"
    by (simp add: with_paths_def)
  have pre3: "upload_paths_loop picky_env 0 [''http://x/a.png''] [] []
       = (Inr [''asset''], [AxiosGet ''http://x/a.png'', UploadImageBuffer [4, 5, 6]])"
    by (simp add: picky_env_def upload_eval)
  have post3: "upload_paths_loop picky_env (Suc (length [''http://x/a.png''])) [''bad'']
         [''asset''] [AxiosGet ''http://x/a.png'', UploadImageBuffer [4, 5, 6]]
       = (Inr [''asset''],
          [AxiosGet ''http://x/a.png'', UploadImageBuffer [4, 5, 6], AxiosGet ''bad''])"
    by (simp add: picky_env_def upload_eval)
  note t3 = falsy_first_path_is_skipped
    [where opts = "with_paths [''http://x/a.png'', [], ''bad'']" and pre = "[''http://x/a.png'']"
       and post = "[''bad'']" and e = picky_env and tr = "[]",
     THEN conjunct2, THEN conjunct1]
  have s3: "upload_video_images picky_env (with_paths [''http://x/a.png'', [], ''bad'']) []
       = (Inr [''asset''],
          [AxiosGet ''http://x/a.png'', UploadImageBuffer [4, 5, 6], AxiosGet ''bad''])"
    unfolding t3 [THEN mp, OF h3] pre3 by (simp only: post3 prod.case sum.case)
  have h4: "files (with_paths [[], []]) = [] \<and> list_all (\<lambda>p. p = []) (filePaths (with_paths [[], []]))"
    by (simp add: with_paths_def)
  note t4 = falsy_first_path_is_skipped
    [where opts = "with_paths [[], []]" and e = picky_env and tr = "[]",
     THEN conjunct2, THEN conjunct2, THEN conjunct1]
  have s4: "upload_video_images picky_env (with_paths [[], []]) [] = (Inr [], [])"
    using t4 h4 by simp
  from t1 h1 u1 t2 h2 u2 r s3 s4 show ?thesis by simp
qed

section \<open>Video status\<close>









lemma js_get_has_own: "js_get v k \<noteq> Undefined \<Longrightarrow> has_own v k"
  by (cases v) (auto split: option.splits if_splits)

lemma js_member_own:
  assumes "truthy (js_get v k)"
  shows "js_member inherited v k = js_get v k"
proof -
  from assms have "js_get v k \<noteq> Undefined" by auto
  then have "has_own v k" by (rule js_get_has_own)
  then show ?thesis by (simp add: js_member_def)
qed

lemma js_member_has_own: "has_own v k \<Longrightarrow> js_member inherited v k = js_get v k"
  by (simp add: js_member_def)

text \<open>
  None of the fixed keys the source reads names a member of a built-in prototype, so for
  them \<open>js_get\<close> and \<open>js_member\<close> agree on every value.
\<close>

lemma literal_keys_are_not_inherited:
  "list_all (\<lambda>k. k \<notin> set (array_prototype_names @ string_prototype_names
                         @ number_prototype_names @ object_prototype_names)) literal_keys"
  by code_simp

lemma js_member_literal_key:
  assumes "k \<in> set literal_keys"
  shows "js_member node_inherits v k = js_get v k"
proof -
  from literal_keys_are_not_inherited assms
  have "k \<notin> set (array_prototype_names @ string_prototype_names
                    @ number_prototype_names @ object_prototype_names)"
    by (simp add: list_all_iff)
  then have "\<not> node_inherits v k"
    by (cases v) (simp_all add: node_inherits_def)
  moreover have "\<not> has_own v k \<Longrightarrow> js_get v k = Undefined"
    using js_get_has_own [of v k] by blast
  ultimately show ?thesis by (simp add: js_member_def)
qed

lemma queryVideo_unfold:
  assumes "request e [] (HistoryByIds historyId False) = Inr result" and "\<not> nullish result"
  shows "fst (queryVideoTaskStatus e historyId []) =
     Inr (if \<not> truthy (js_member (inherits e) result historyId)
          then \<lparr>vs_status = ''processing'', vs_statusCode = Num 20, vs_failCode = Num 0,
                vs_videoUrl = Null, vs_finishTime = Num 0, vs_rawData = Null\<rparr>
          else \<lparr>vs_status =
                  statusText_of (js_get (js_member (inherits e) result historyId) ''status'')
                    (extracted_videoUrl result (js_member (inherits e) result historyId)),
                vs_statusCode = js_get (js_member (inherits e) result historyId) ''status'',
                vs_failCode =
                  js_or (js_get (js_member (inherits e) result historyId) ''fail_code'') (Num 0),
                vs_videoUrl =
                  extracted_videoUrl result (js_member (inherits e) result historyId),
                vs_finishTime =
                  js_or (opt (js_get (js_member (inherits e) result historyId) ''task'')
                           ''finish_time'') (Num 0),
                vs_rawData = js_member (inherits e) result historyId\<rparr>)"
proof -
  have s: "JSON_stringify result = Some (serialize result)"
    using assms(2) by (cases result) (simp_all add: JSON_stringify_def)
  show ?thesis
    using assms
    by (simp add: queryVideoTaskStatus_def bind_io_def call_request_def rejected_def s
        return_io_def throw_io_def Let_def extracted_videoUrl_def)
qed



text \<open>
  C9.  For a record whose raw status is none of 10, 20, 30 and 50 and from which no URL is
  extracted, the status returned is the string \<open>unknown\<close>, which is outside the set
  \<open>processing\<close>, \<open>completed\<close>, \<open>failed\<close>.
\<close>

theorem video_status_unknown_for_other_codes:
  assumes "request e [] (HistoryByIds historyId False) = Inr result" and "\<not> nullish result"
  shows "truthy (js_get result historyId)
       \<and> js_get (js_get result historyId) ''status'' \<notin> {Num 10, Num 20, Num 30, Num 50} \<longrightarrow>
         (\<exists>r. fst (queryVideoTaskStatus e historyId []) = Inr r
             \<and> vs_statusCode r = js_get (js_get result historyId) ''status''
             \<and> (vs_videoUrl r = Null \<longrightarrow>
                   vs_status r = ''unknown''
                 \<and> vs_status r \<notin> {''processing'', ''completed'', ''failed''}))"
proof
  assume h: "truthy (js_get result historyId)
       \<and> js_get (js_get result historyId) ''status'' \<notin> {Num 10, Num 20, Num 30, Num 50}"
  then have own: "js_member (inherits e) result historyId = js_get result historyId"
    by (simp add: js_member_own)
  let ?url = "extracted_videoUrl result (js_get result historyId)"
  let ?code = "js_get (js_get result historyId) ''status''"
  define r where "r =
      \<lparr>vs_status = statusText_of ?code ?url,
       vs_statusCode = ?code,
       vs_failCode = js_or (js_get (js_get result historyId) ''fail_code'') (Num 0),
       vs_videoUrl = ?url,
       vs_finishTime =
         js_or (opt (js_get (js_get result historyId) ''task'') ''finish_time'') (Num 0),
       vs_rawData = js_get result historyId\<rparr>"
  have q: "fst (queryVideoTaskStatus e historyId []) = Inr r"
    using h queryVideo_unfold [OF assms] by (simp add: r_def own)
  have u: "statusText_of ?code Null = ''unknown''"
    using h by (simp add: statusText_of_def)
  have "vs_videoUrl r = Null \<longrightarrow>
          vs_status r = ''unknown'' \<and> vs_status r \<notin> {''processing'', ''completed'', ''failed''}"
    using u by (simp add: r_def)
  moreover have "vs_statusCode r = ?code" by (simp add: r_def)
  ultimately show "\<exists>r. fst (queryVideoTaskStatus e historyId []) = Inr r
             \<and> vs_statusCode r = js_get (js_get result historyId) ''status''
             \<and> (vs_videoUrl r = Null \<longrightarrow>
                   vs_status r = ''unknown''
                 \<and> vs_status r \<notin> {''processing'', ''completed'', ''failed''})"
    using q by blast
qed

theorem video_status_unknown_for_other_codes_witness:
  "truthy (js_get (resp_status 42) ''h1'')
   \<and> js_get (js_get (resp_status 42) ''h1'') ''status'' \<notin> {Num 10, Num 20, Num 30, Num 50}
   \<and> vs_videoUrl (projr (fst (queryVideoTaskStatus (history_env (resp_status 42)) ''h1'' []))) = Null
   \<and> vs_status (projr (fst (queryVideoTaskStatus (history_env (resp_status 42)) ''h1'' [])))
       = ''unknown''"
proof -
  let ?q = "projr (fst (queryVideoTaskStatus (history_env (resp_status 42)) ''h1'' []))"
  have rq: "request (history_env (resp_status 42)) [] (HistoryByIds ''h1'' False)
              = Inr (resp_status 42)"
    by (simp add: history_env_def steady_env_def)
  have nn: "\<not> nullish (resp_status 42)" by (simp add: resp_status_def)
  have h: "truthy (js_get (resp_status 42) ''h1'')
     \<and> js_get (js_get (resp_status 42) ''h1'') ''status'' \<notin> {Num 10, Num 20, Num 30, Num 50}"
    by (simp add: resp_status_def)
  have url: "vs_videoUrl ?q = Null" by code_simp
  from video_status_unknown_for_other_codes [OF rq nn] h obtain r where
    q: "fst (queryVideoTaskStatus (history_env (resp_status 42)) ''h1'' []) = Inr r"
    and t: "vs_videoUrl r = Null \<longrightarrow> vs_status r = ''unknown''
                 \<and> vs_status r \<notin> {''processing'', ''completed'', ''failed''}"
    by blast
  have "?q = r" by (simp add: q)
  with t url have "vs_status ?q = ''unknown''" by blast
  with h url show ?thesis by blast
qed

section \<open>Image status\<close>


lemma queryImage_unfold:
  assumes "request e [] (HistoryByIds historyId True) = Inr response" and "\<not> nullish response"
    and "truthy (js_member (inherits e) response historyId)"
  shows "fst (queryImageTaskStatus e historyId []) =
     (let taskInfo = js_member (inherits e) response historyId;
          itemList = js_or (js_get taskInfo ''item_list'') (Arr [])
      in if length_positive itemList then
           (if nullish (js_get itemList ''0'') then Inl TypeError
            else if truthy (js_get (js_get itemList ''0'') ''image'') then
              (case extractImageUrls itemList of
                 Inl err \<Rightarrow> Inl err
               | Inr imageUrls \<Rightarrow>
                   Inr (image_answer historyId taskInfo
                          (if length imageUrls > 0 then Some imageUrls else None)))
            else Inr (image_answer historyId taskInfo None))
         else Inr (image_answer historyId taskInfo None))"
  using assms
  by (simp add: queryImageTaskStatus_def bind_io_def call_request_def rejected_def throw_io_def
      return_io_def Let_def image_answer_def split: sum.splits)


lemma index_zero: "index_of_key ''0'' = Some 0"
  by (simp add: index_of_key_def is_digit_def digit_val_def)

lemma length_positive_Arr: "length_positive (Arr items) = (items \<noteq> [])"
  by (simp add: length_positive_def)

lemma first_of_Arr: "items \<noteq> [] \<Longrightarrow> js_get (Arr items) ''0'' = hd items"
  by (simp add: index_zero hd_conv_nth)




text \<open>
  X4.  For a record whose \<open>item_list\<close> is a list with \<open>null\<close> as its first
  item, \<open>queryImageTaskStatus\<close> raises a \<open>TypeError\<close>: \<open>itemList[0].image\<close>
  is read without \<open>?.\<close>.
\<close>

theorem image_query_null_first_item_raises:
  assumes "request e [] (HistoryByIds historyId True) = Inr response" and "\<not> nullish response"
  shows "truthy (js_member (inherits e) response historyId)
       \<and> js_get (js_member (inherits e) response historyId) ''item_list'' = Arr (item # rest)
       \<and> nullish item \<longrightarrow>
         fst (queryImageTaskStatus e historyId []) = Inl TypeError"
proof
  let ?rec = "js_member (inherits e) response historyId"
  assume h: "truthy ?rec \<and> js_get ?rec ''item_list'' = Arr (item # rest) \<and> nullish item"
  then have il: "js_or (js_get ?rec ''item_list'') (Arr []) = Arr (item # rest)"
    by (simp add: js_or_def)
  have first: "js_get (Arr (item # rest)) ''0'' = item"
    using first_of_Arr [of "item # rest"] by simp
  show "fst (queryImageTaskStatus e historyId []) = Inl TypeError"
    using h il first queryImage_unfold [OF assms]
    by (simp add: Let_def length_positive_Arr del: js_get.simps extractImageUrls.simps)
qed

theorem image_query_null_first_item_raises_witness:
  "fst (queryImageTaskStatus (history_env resp_first_item_null) ''h1'' []) = Inl TypeError"
proof -
  have rq: "request (history_env resp_first_item_null) [] (HistoryByIds ''h1'' True)
              = Inr resp_first_item_null"
    by (simp add: history_env_def steady_env_def)
  have nn: "\<not> nullish resp_first_item_null" by (simp add: resp_first_item_null_def)
  have h: "truthy (js_member (inherits (history_env resp_first_item_null))
                     resp_first_item_null ''h1'')
       \<and> js_get (js_member (inherits (history_env resp_first_item_null))
                   resp_first_item_null ''h1'') ''item_list'' = Arr (Null # [])
       \<and> nullish Null"
    by (simp add: resp_first_item_null_def js_member_def)
  from image_query_null_first_item_raises [OF rq nn, of Null "[]"] h show ?thesis by blast
qed

text \<open>
  X5.  A history id that names a member the response inherits from its prototype (such
  as \<open>constructor\<close> or \<open>toString\<close> for an object), and no own property of the
  response, is read as a record: the video query returns the inherited member as raw data
  with an undefined status code, and the status \<open>unknown\<close> when the response holds no
  CDN URL; the image query returns normally, with \<open>results\<close> \<open>null\<close>, instead of
  raising the not-found exception.
\<close>

theorem inherited_id_is_read_as_record:
  "(request e [] (HistoryByIds historyId False) = Inr response \<and> \<not> nullish response
      \<and> \<not> has_own response historyId \<and> inherits e response historyId
      \<and> match_vlabvod (serialize response) = None \<longrightarrow>
      fst (queryVideoTaskStatus e historyId []) =
        Inr \<lparr>vs_status = ''unknown'', vs_statusCode = Undefined, vs_failCode = Num 0,
             vs_videoUrl = Null, vs_finishTime = Num 0, vs_rawData = Builtin historyId\<rparr>)
   \<and> (request e [] (HistoryByIds historyId True) = Inr response \<and> \<not> nullish response
      \<and> \<not> has_own response historyId \<and> inherits e response historyId \<longrightarrow>
      fst (queryImageTaskStatus e historyId []) =
        Inr (image_answer historyId (Builtin historyId) None))"
proof (intro conjI impI)
  assume h: "request e [] (HistoryByIds historyId False) = Inr response \<and> \<not> nullish response
      \<and> \<not> has_own response historyId \<and> inherits e response historyId
      \<and> match_vlabvod (serialize response) = None"
  then have m: "js_member (inherits e) response historyId = Builtin historyId"
    by (simp add: js_member_def)
  have u: "extracted_videoUrl response (Builtin historyId) = Null"
    using h by (simp add: extracted_videoUrl_def js_or_def length_positive_def)
  from h have rq: "request e [] (HistoryByIds historyId False) = Inr response"
    and nn: "\<not> nullish response" by simp_all
  show "fst (queryVideoTaskStatus e historyId []) =
        Inr \<lparr>vs_status = ''unknown'', vs_statusCode = Undefined, vs_failCode = Num 0,
             vs_videoUrl = Null, vs_finishTime = Num 0, vs_rawData = Builtin historyId\<rparr>"
    unfolding queryVideo_unfold [OF rq nn] m u
    by (simp add: statusText_of_def js_or_def opt_def)
next
  assume h: "request e [] (HistoryByIds historyId True) = Inr response \<and> \<not> nullish response
      \<and> \<not> has_own response historyId \<and> inherits e response historyId"
  then have m: "js_member (inherits e) response historyId = Builtin historyId"
    by (simp add: js_member_def)
  from h have rq: "request e [] (HistoryByIds historyId True) = Inr response"
    and nn: "\<not> nullish response" by simp_all
  have t: "truthy (js_member (inherits e) response historyId)" by (simp add: m)
  show "fst (queryImageTaskStatus e historyId []) =
        Inr (image_answer historyId (Builtin historyId) None)"
    unfolding queryImage_unfold [OF rq nn t] m
    by (simp add: js_or_def length_positive_Arr)
qed

theorem inherited_id_is_read_as_record_witness:
  "fst (queryVideoTaskStatus (history_env (Obj [])) ''constructor'' []) =
     Inr \<lparr>vs_status = ''unknown'', vs_statusCode = Undefined, vs_failCode = Num 0,
          vs_videoUrl = Null, vs_finishTime = Num 0, vs_rawData = Builtin ''constructor''\<rparr>
   \<and> fst (queryImageTaskStatus (history_env (Obj [])) ''constructor'' []) =
     Inr (image_answer ''constructor'' (Builtin ''constructor'') None)"
proof -
  have rq: "request (history_env (Obj [])) [] (HistoryByIds ''constructor'' b) = Inr (Obj [])"
    for b
    by (simp add: history_env_def steady_env_def)
  have inh: "inherits (history_env (Obj [])) (Obj []) ''constructor''" by code_simp
  have h: "\<not> nullish (Obj [])" "\<not> has_own (Obj []) ''constructor''" by simp_all
  have m: "match_vlabvod (serialize (Obj [])) = None" by code_simp
  note t = inherited_id_is_read_as_record
    [where e = "history_env (Obj [])" and historyId = "''constructor''" and response = "Obj []"]
  from t rq inh h m show ?thesis by blast
qed

section \<open>Image URLs\<close>

lemma prefix_unescape_amp:
  "CHR ''&'' \<notin> set p \<Longrightarrow> prefix p (unescape_amp s) \<Longrightarrow> prefix p s"
proof (induction p arbitrary: s)
  case Nil
  then show ?case by simp
next
  case (Cons a p)
  show ?case
  proof (cases s)
    case Nil
    with Cons.prems show ?thesis by simp
  next
    case (Cons c cs)
    show ?thesis
    proof (cases "prefix escaped_amp (c # cs)")
      case True
      with Cons.prems Cons show ?thesis by simp
    next
      case False
      with Cons.prems Cons have "a = c" "prefix p (unescape_amp cs)" by simp_all
      moreover have "CHR ''&'' \<notin> set p" using Cons.prems by simp
      ultimately show ?thesis using Cons.IH [of cs] Cons by simp
    qed
  qed
qed

lemma unescape_amp_clean: "\<not> sublist escaped_amp (unescape_amp s)"
proof (induction s rule: unescape_amp.induct)
  case 1
  then show ?case by (simp add: escaped_amp_def)
next
  case (2 c cs)
  have amp: "CHR ''&'' \<notin> set escaped_amp" by (simp add: escaped_amp_def)
  show ?case
  proof (cases "prefix escaped_amp (c # cs)")
    case True
    have "\<not> prefix escaped_amp (CHR ''&'' # unescape_amp (drop 5 cs))"
      by (simp add: escaped_amp_def)
    then show ?thesis using True 2(1) by (simp add: sublist_Cons_right)
  next
    case False
    have "\<not> prefix escaped_amp (c # unescape_amp cs)"
    proof
      assume "prefix escaped_amp (c # unescape_amp cs)"
      then have "prefix escaped_amp (unescape_amp (c # cs))" using False by simp
      from prefix_unescape_amp [OF amp this] False show False by simp
    qed
    then show ?thesis using False 2(2) by (simp add: sublist_Cons_right)
  qed
qed

lemma unescape_amp_nonempty: "s \<noteq> [] \<Longrightarrow> unescape_amp s \<noteq> []"
  by (cases s) simp_all

lemma unescape_amp_idem: "unescape_amp (unescape_amp s) = unescape_amp s"
proof -
  have "\<not> sublist escaped_amp t \<Longrightarrow> unescape_amp t = t" for t
  proof (induction t)
    case Nil
    then show ?case by simp
  next
    case (Cons c cs)
    then have "\<not> prefix escaped_amp (c # cs)" "\<not> sublist escaped_amp cs"
      by (simp_all add: sublist_Cons_right)
    with Cons.IH show ?case by simp
  qed
  from this [OF unescape_amp_clean] show ?thesis .
qed


lemma js_replace_amp_Inr:
  "js_replace_amp v = Inr u \<Longrightarrow> \<exists>raw. v = Str raw \<and> u = unescape_amp raw"
  by (cases v) simp_all

lemma set_update_cases:
  "(k', u') \<in> set (AList.update k v al) \<Longrightarrow> (k', u') = (k, v) \<or> (k', u') \<in> set al"
  by (induction al) (auto split: if_splits)

lemma set_assign_cases:
  "(k', u') \<in> set (assign_size k v al) \<Longrightarrow> (k', u') = (k, v) \<or> (k', u') \<in> set al"
  using set_update_cases [of k' u' k v al] by (simp add: assign_size_def split: if_splits)

lemma collect_sizes_entries:
  assumes "collect_sizes cm keys acc = Inr sizes"
    and "\<forall>(k, u) \<in> set acc. \<exists>raw. js_get cm k = Str raw \<and> u = unescape_amp raw"
  shows "\<forall>(k, u) \<in> set sizes. \<exists>raw. js_get cm k = Str raw \<and> u = unescape_amp raw"
  using assms
proof (induction keys arbitrary: acc)
  case Nil
  then show ?case by simp
next
  case (Cons key keys)
  show ?case
  proof (cases "truthy (js_get cm key)")
    case False
    with Cons show ?thesis by simp
  next
    case True
    with Cons.prems(1) obtain u where u: "js_replace_amp (js_get cm key) = Inr u"
      and rest: "collect_sizes cm keys (assign_size key u acc) = Inr sizes"
      by (auto split: sum.splits)
    from js_replace_amp_Inr [OF u] obtain raw where
      raw: "js_get cm key = Str raw" "u = unescape_amp raw" by blast
    have "\<forall>(k, u') \<in> set (assign_size key u acc).
            \<exists>raw. js_get cm k = Str raw \<and> u' = unescape_amp raw"
      using Cons.prems(2) raw by (auto dest!: set_assign_cases)
    from Cons.IH [OF rest this] show ?thesis .
  qed
qed

lemma collect_sizes_lookup:
  assumes "collect_sizes cm keys acc = Inr sizes"
  shows "map_of sizes k =
           (if k \<in> set keys \<and> truthy (js_get cm k) \<and> k \<noteq> ''__proto__''
            then map_option unescape_amp (url_entry cm k) else map_of acc k)"
  using assms
proof (induction keys arbitrary: acc)
  case Nil
  then show ?case by simp
next
  case (Cons key keys)
  show ?case
  proof (cases "truthy (js_get cm key)")
    case False
    with Cons.prems have "collect_sizes cm keys acc = Inr sizes" by simp
    from Cons.IH [OF this] False show ?thesis by auto
  next
    case True
    with Cons.prems obtain u where u: "js_replace_amp (js_get cm key) = Inr u"
      and rest: "collect_sizes cm keys (assign_size key u acc) = Inr sizes"
      by (auto split: sum.splits)
    from js_replace_amp_Inr [OF u] obtain raw where
      raw: "js_get cm key = Str raw" "u = unescape_amp raw" by blast
    have ne: "raw \<noteq> []" using True raw by simp
    have entry: "map_option unescape_amp (url_entry cm key) = Some u"
      using raw ne by (simp add: url_entry_def)
    show ?thesis
      using Cons.IH [OF rest] True entry
      by (auto simp: update_conv' assign_size_def)
  qed
qed

lemma pick_long_first_present:
  "pick_long sizes keys =
     first_present (\<lambda>k. case map_of sizes k of Some u \<Rightarrow> if u \<noteq> [] then Some u else None
                                            | None \<Rightarrow> None) keys"
  by (induction keys) (simp_all split: option.splits)

lemma first_present_cong:
  "(\<And>k. k \<in> set keys \<Longrightarrow> f k = g k) \<Longrightarrow> first_present f keys = first_present g keys"
  by (induction keys) (simp_all split: option.splits)

lemma first_present_map_option:
  "first_present (\<lambda>k. map_option f (m k)) keys = map_option f (first_present m keys)"
  by (induction keys) (simp_all split: option.splits)

lemma pick_long_Some:
  "pick_long sizes keys = Some u \<Longrightarrow> \<exists>k \<in> set keys. map_of sizes k = Some u"
  by (induction keys) (auto split: option.splits if_splits)

lemma size_key_2400: "index_of_key ''2400'' = Some 2400 \<and> digits_of 2400 = ''2400''"
  by code_simp

lemma size_key_1080: "index_of_key ''1080'' = Some 1080 \<and> digits_of 1080 = ''1080''"
  by code_simp

lemma size_key_720: "index_of_key ''720'' = Some 720 \<and> digits_of 720 = ''720''"
  by code_simp

lemma size_key_480: "index_of_key ''480'' = Some 480 \<and> digits_of 480 = ''480''"
  by code_simp

lemma size_key_360: "index_of_key ''360'' = Some 360 \<and> digits_of 360 = ''360''"
  by code_simp

lemmas size_key_numbers = size_key_2400 size_key_1080 size_key_720 size_key_480 size_key_360

lemma size_key_in_range:
  assumes "k \<in> set normalSizeKeys" and "truthy (js_get (Arr xs) k)"
  shows "\<exists>n < length xs. digits_of n = k"
proof -
  have neq: "k \<noteq> ''length''" using assms(1) by (auto simp: normalSizeKeys_def)
  have "\<exists>n. index_of_key k = Some n \<and> digits_of n = k"
  proof -
    from assms(1) consider "k = ''2400''" | "k = ''1080''" | "k = ''720''" | "k = ''480''"
      | "k = ''360''"
      by (auto simp: normalSizeKeys_def)
    then show ?thesis
    proof cases
      case 1 then show ?thesis using size_key_2400 by simp
    next
      case 2 then show ?thesis using size_key_1080 by simp
    next
      case 3 then show ?thesis using size_key_720 by simp
    next
      case 4 then show ?thesis using size_key_480 by simp
    next
      case 5 then show ?thesis using size_key_360 by simp
    qed
  qed
  then obtain n where n: "index_of_key k = Some n" "digits_of n = k" by blast
  have "n < length xs"
  proof (rule ccontr)
    assume "\<not> n < length xs"
    then have "js_get (Arr xs) k = Undefined" using n(1) neq by simp
    with assms(2) show False by simp
  qed
  with n(2) show ?thesis by blast
qed

lemma size_key_is_own_key:
  assumes "is_object cm" and "k \<in> set normalSizeKeys" and "truthy (js_get cm k)"
  shows "k \<in> set (object_keys cm)"
proof (cases cm)
  case (Obj kvs)
  have "map_of kvs k \<noteq> None"
  proof
    assume "map_of kvs k = None"
    then have "js_get cm k = Undefined" using Obj by simp
    with assms(3) show False by simp
  qed
  then have "k \<in> fst ` set kvs" by (simp add: map_of_eq_None_iff)
  then show ?thesis using Obj by simp
next
  case (Arr xs)
  from size_key_in_range [OF assms(2)] assms(3) Arr
  obtain n where "n < length xs" "digits_of n = k" by blast
  then have "k \<in> digits_of ` {0..<length xs}" by auto
  then show ?thesis using Arr by simp
qed (use assms(1) in simp_all)

lemma extractImageUrlInfo_unfold:
  assumes "extractImageUrlInfo item = Inr info"
  shows "\<exists>p w.
      (if truthy (opt (opt (opt (opt item ''image'') ''large_images'') ''0'') ''image_url'')
       then map_sum id Some
              (js_replace_amp (opt (opt (opt (opt item ''image'') ''large_images'') ''0'') ''image_url''))
       else Inr None) = Inr p
    \<and> (if truthy (opt (opt item ''common_attr'') ''cover_url'')
       then map_sum id Some (js_replace_amp (opt (opt item ''common_attr'') ''cover_url''))
       else Inr None) = Inr w
    \<and> png info = p \<and> webp info = w
    \<and> (if is_object (opt (opt item ''common_attr'') ''cover_url_map'')
       then \<exists>sizes. collect_sizes (opt (opt item ''common_attr'') ''cover_url_map'')
                      (object_keys (opt (opt item ''common_attr'') ''cover_url_map'')) [] = Inr sizes
                 \<and> webp_sizes info = sizes \<and> webp_long info = pick_long sizes normalSizeKeys
       else webp_sizes info = [] \<and> webp_long info = None)"
proof -
  have obj: "is_object v \<Longrightarrow> truthy v" for v by (cases v) simp_all
  show ?thesis
    using assms obj [of "opt (opt item ''common_attr'') ''cover_url_map''"]
    unfolding extractImageUrlInfo_def Let_def
    by (auto split: sum.splits if_splits)
qed

lemma replaced_Some:
  assumes "(if truthy v then map_sum id Some (js_replace_amp v) else Inr None) = Inr (Some u)"
  shows "\<exists>raw. v = Str raw \<and> u = unescape_amp raw"
proof -
  from assms have "js_replace_amp v = Inr u"
    by (cases "js_replace_amp v") (auto split: if_splits)
  then show ?thesis by (rule js_replace_amp_Inr)
qed

lemma js_replace_amp_returns:
  "string_or_falsy v \<Longrightarrow> truthy v \<Longrightarrow> \<exists>u. js_replace_amp v = Inr u"
  by (cases v) simp_all

lemma collect_sizes_returns:
  "\<forall>k \<in> set keys. string_or_falsy (js_get cm k) \<Longrightarrow> \<exists>sizes. collect_sizes cm keys acc = Inr sizes"
proof (induction keys arbitrary: acc)
  case Nil
  then show ?case by simp
next
  case (Cons key keys)
  show ?case
  proof (cases "truthy (js_get cm key)")
    case False
    then show ?thesis using Cons by simp
  next
    case True
    with Cons.prems obtain u where "js_replace_amp (js_get cm key) = Inr u"
      using js_replace_amp_returns [of "js_get cm key"] by auto
    then show ?thesis using True Cons by simp
  qed
qed

lemma extractImageUrlInfo_returns:
  assumes "string_or_falsy (opt (opt (opt (opt item ''image'') ''large_images'') ''0'') ''image_url'')"
    and "string_or_falsy (opt (opt item ''common_attr'') ''cover_url'')"
    and "\<forall>k \<in> set (object_keys (opt (opt item ''common_attr'') ''cover_url_map'')).
           string_or_falsy (js_get (opt (opt item ''common_attr'') ''cover_url_map'') k)"
  shows "\<exists>info. extractImageUrlInfo item = Inr info"
proof -
  let ?p = "opt (opt (opt (opt item ''image'') ''large_images'') ''0'') ''image_url''"
  let ?w = "opt (opt item ''common_attr'') ''cover_url''"
  let ?cm = "opt (opt item ''common_attr'') ''cover_url_map''"
  have p: "\<exists>p. (if truthy ?p then map_sum id Some (js_replace_amp ?p) else Inr None) = Inr p"
    using js_replace_amp_returns [OF assms(1)] by auto
  have w: "\<exists>w. (if truthy ?w then map_sum id Some (js_replace_amp ?w) else Inr None) = Inr w"
    using js_replace_amp_returns [OF assms(2)] by auto
  from collect_sizes_returns [OF assms(3), of "[]"]
  obtain sizes where c: "collect_sizes ?cm (object_keys ?cm) [] = Inr sizes" by blast
  from p obtain p' where p': "(if truthy ?p then map_sum id Some (js_replace_amp ?p) else Inr None) = Inr p'"
    by blast
  from w obtain w' where w': "(if truthy ?w then map_sum id Some (js_replace_amp ?w) else Inr None) = Inr w'"
    by blast
  show ?thesis
    unfolding extractImageUrlInfo_def Let_def p' w' c by simp
qed

lemma extractImageUrlInfo_returned_urls:
  assumes "extractImageUrlInfo item = Inr info"
  shows "normalSizeKeys = [''2400'', ''1080'', ''720'', ''480'', ''360'']
       \<and> webp_long info =
           (if is_object (opt (opt item ''common_attr'') ''cover_url_map'')
            then map_option unescape_amp
                   (first_present (url_entry (opt (opt item ''common_attr'') ''cover_url_map''))
                      normalSizeKeys)
            else None)
       \<and> (\<forall>u. png info = Some u \<longrightarrow>
             (\<exists>raw. opt (opt (opt (opt item ''image'') ''large_images'') ''0'') ''image_url'' = Str raw
                   \<and> u = unescape_amp raw))
       \<and> (\<forall>u. webp info = Some u \<longrightarrow>
             (\<exists>raw. opt (opt item ''common_attr'') ''cover_url'' = Str raw \<and> u = unescape_amp raw))
       \<and> (\<forall>k u. (k, u) \<in> set (webp_sizes info) \<longrightarrow>
             (\<exists>raw. js_get (opt (opt item ''common_attr'') ''cover_url_map'') k = Str raw
                   \<and> u = unescape_amp raw))
       \<and> (\<forall>u. webp_long info = Some u \<longrightarrow>
             (\<exists>k. k \<in> set normalSizeKeys \<and> map_of (webp_sizes info) k = Some u))
       \<and> (\<forall>u. u \<in> returned_urls info \<longrightarrow> \<not> sublist escaped_amp u)"
proof -
  let ?cm = "opt (opt item ''common_attr'') ''cover_url_map''"
  from extractImageUrlInfo_unfold [OF assms] obtain p w where
    p: "(if truthy (opt (opt (opt (opt item ''image'') ''large_images'') ''0'') ''image_url'')
       then map_sum id Some
              (js_replace_amp (opt (opt (opt (opt item ''image'') ''large_images'') ''0'') ''image_url''))
       else Inr None) = Inr p"
    and w: "(if truthy (opt (opt item ''common_attr'') ''cover_url'')
       then map_sum id Some (js_replace_amp (opt (opt item ''common_attr'') ''cover_url''))
       else Inr None) = Inr w"
    and pw: "png info = p" "webp info = w"
    and cm: "if is_object ?cm
       then \<exists>sizes. collect_sizes ?cm (object_keys ?cm) [] = Inr sizes
                 \<and> webp_sizes info = sizes \<and> webp_long info = pick_long sizes normalSizeKeys
       else webp_sizes info = [] \<and> webp_long info = None"
    by blast
  have png: "\<exists>raw. opt (opt (opt (opt item ''image'') ''large_images'') ''0'') ''image_url'' = Str raw
                   \<and> u = unescape_amp raw" if "png info = Some u" for u
  proof -
    from p pw(1) that have "p = Some u" by simp
    with p show ?thesis by (intro replaced_Some) simp
  qed
  have webp: "\<exists>raw. opt (opt item ''common_attr'') ''cover_url'' = Str raw \<and> u = unescape_amp raw"
    if "webp info = Some u" for u
  proof -
    from w pw(2) that have "w = Some u" by simp
    with w show ?thesis by (intro replaced_Some) simp
  qed
  have sizes: "\<exists>raw. js_get ?cm k = Str raw \<and> u = unescape_amp raw"
    if "(k, u) \<in> set (webp_sizes info)" for k u
  proof (cases "is_object ?cm")
    case True
    with cm have c: "collect_sizes ?cm (object_keys ?cm) [] = Inr (webp_sizes info)" by auto
    from collect_sizes_entries [OF c] that show ?thesis by auto
  next
    case False
    with cm that show ?thesis by simp
  qed
  have long_in: "\<exists>k. k \<in> set normalSizeKeys \<and> map_of (webp_sizes info) k = Some u"
    if "webp_long info = Some u" for u
  proof (cases "is_object ?cm")
    case True
    with cm that have "pick_long (webp_sizes info) normalSizeKeys = Some u" by auto
    from pick_long_Some [OF this] show ?thesis by blast
  next
    case False
    with cm that show ?thesis by simp
  qed
  have long: "webp_long info =
           (if is_object ?cm
            then map_option unescape_amp (first_present (url_entry ?cm) normalSizeKeys)
            else None)"
  proof (cases "is_object ?cm")
    case False
    with cm show ?thesis by simp
  next
    case True
    with cm have c: "collect_sizes ?cm (object_keys ?cm) [] = Inr (webp_sizes info)"
      and l: "webp_long info = pick_long (webp_sizes info) normalSizeKeys" by auto
    have look: "map_of (webp_sizes info) k = map_option unescape_amp (url_entry ?cm k)"
      if "k \<in> set normalSizeKeys" for k
    proof (cases "truthy (js_get ?cm k)")
      case True': True
      have "k \<noteq> ''__proto__''" using that by (auto simp: normalSizeKeys_def)
      with size_key_is_own_key [OF True that True'] collect_sizes_lookup [OF c, of k] True'
      show ?thesis by simp
    next
      case False
      then have "url_entry ?cm k = None"
        by (cases "js_get ?cm k") (simp_all add: url_entry_def)
      with collect_sizes_lookup [OF c, of k] False show ?thesis by simp
    qed
    have "(case map_of (webp_sizes info) k of Some u \<Rightarrow> if u \<noteq> [] then Some u else None
            | None \<Rightarrow> None) = map_option unescape_amp (url_entry ?cm k)"
      if "k \<in> set normalSizeKeys" for k
    proof (cases "url_entry ?cm k")
      case None
      then show ?thesis using look [OF that] by simp
    next
      case (Some raw)
      then have "raw \<noteq> []"
        by (cases "js_get ?cm k") (auto simp: url_entry_def split: if_splits)
      then show ?thesis using look [OF that] Some by (simp add: unescape_amp_nonempty)
    qed
    then have "pick_long (webp_sizes info) normalSizeKeys
        = first_present (\<lambda>k. map_option unescape_amp (url_entry ?cm k)) normalSizeKeys"
      unfolding pick_long_first_present by (rule first_present_cong)
    then show ?thesis using True l by (simp add: first_present_map_option)
  qed
  have clean: "\<not> sublist escaped_amp u" if "u \<in> returned_urls info" for u
  proof -
    from that consider "png info = Some u" | "webp info = Some u" | "webp_long info = Some u"
      | k where "(k, u) \<in> set (webp_sizes info)"
      by (auto simp: returned_urls_def elem_set)
    then have "\<exists>raw. u = unescape_amp raw"
    proof cases
      case 1 then show ?thesis using png by blast
    next
      case 2 then show ?thesis using webp by blast
    next
      case 3
      from long_in [OF 3] obtain k where "map_of (webp_sizes info) k = Some u" by blast
      then have "(k, u) \<in> set (webp_sizes info)" by (rule map_of_SomeD)
      then show ?thesis using sizes by blast
    next
      case 4 then show ?thesis using sizes by blast
    qed
    then show ?thesis using unescape_amp_clean by blast
  qed
  show ?thesis
    using long png webp sizes long_in clean by (simp add: normalSizeKeys_def)
qed

text \<open>
  C7.  \<open>extractImageUrlInfo\<close> returns whenever each raw field it unescapes is a string
  or falsy.  When it returns, \<open>webp_long\<close> is the entry of the first key of 2400, 1080,
  720, 480, 360 (in this order) present in \<open>cover_url_map\<close>, with the escaped ampersand
  replaced; \<open>png\<close>, \<open>webp\<close> and every entry of \<open>webp_sizes\<close> are the raw fields
  with the escaped ampersand replaced, \<open>webp_long\<close> is one of the \<open>webp_sizes\<close>
  entries, and no returned URL contains the escaped sequence any more.
\<close>

theorem extractImageUrlInfo_priority_and_unescaped:
  "(string_or_falsy (opt (opt (opt (opt item ''image'') ''large_images'') ''0'') ''image_url'')
      \<and> string_or_falsy (opt (opt item ''common_attr'') ''cover_url'')
      \<and> (\<forall>k \<in> set (object_keys (opt (opt item ''common_attr'') ''cover_url_map'')).
             string_or_falsy (js_get (opt (opt item ''common_attr'') ''cover_url_map'') k)) \<longrightarrow>
      (\<exists>info. extractImageUrlInfo item = Inr info))
   \<and> (\<forall>info. extractImageUrlInfo item = Inr info \<longrightarrow>
       normalSizeKeys = [''2400'', ''1080'', ''720'', ''480'', ''360'']
        \<and> webp_long info =
            (if is_object (opt (opt item ''common_attr'') ''cover_url_map'')
             then map_option unescape_amp
                    (first_present (url_entry (opt (opt item ''common_attr'') ''cover_url_map''))
                       normalSizeKeys)
             else None)
        \<and> (\<forall>u. png info = Some u \<longrightarrow>
              (\<exists>raw. opt (opt (opt (opt item ''image'') ''large_images'') ''0'') ''image_url'' = Str raw
                    \<and> u = unescape_amp raw))
        \<and> (\<forall>u. webp info = Some u \<longrightarrow>
              (\<exists>raw. opt (opt item ''common_attr'') ''cover_url'' = Str raw \<and> u = unescape_amp raw))
        \<and> (\<forall>k u. (k, u) \<in> set (webp_sizes info) \<longrightarrow>
              (\<exists>raw. js_get (opt (opt item ''common_attr'') ''cover_url_map'') k = Str raw
                    \<and> u = unescape_amp raw))
        \<and> (\<forall>u. webp_long info = Some u \<longrightarrow>
              (\<exists>k. k \<in> set normalSizeKeys \<and> map_of (webp_sizes info) k = Some u))
        \<and> (\<forall>u. u \<in> returned_urls info \<longrightarrow> \<not> sublist escaped_amp u))"
proof (rule conjI)
  show "string_or_falsy (opt (opt (opt (opt item ''image'') ''large_images'') ''0'') ''image_url'')
      \<and> string_or_falsy (opt (opt item ''common_attr'') ''cover_url'')
      \<and> (\<forall>k \<in> set (object_keys (opt (opt item ''common_attr'') ''cover_url_map'')).
             string_or_falsy (js_get (opt (opt item ''common_attr'') ''cover_url_map'') k)) \<longrightarrow>
      (\<exists>info. extractImageUrlInfo item = Inr info)"
    using extractImageUrlInfo_returns [of item] by blast
next
  show "\<forall>info. extractImageUrlInfo item = Inr info \<longrightarrow>
       normalSizeKeys = [''2400'', ''1080'', ''720'', ''480'', ''360'']
        \<and> webp_long info =
            (if is_object (opt (opt item ''common_attr'') ''cover_url_map'')
             then map_option unescape_amp
                    (first_present (url_entry (opt (opt item ''common_attr'') ''cover_url_map''))
                       normalSizeKeys)
             else None)
        \<and> (\<forall>u. png info = Some u \<longrightarrow>
              (\<exists>raw. opt (opt (opt (opt item ''image'') ''large_images'') ''0'') ''image_url'' = Str raw
                    \<and> u = unescape_amp raw))
        \<and> (\<forall>u. webp info = Some u \<longrightarrow>
              (\<exists>raw. opt (opt item ''common_attr'') ''cover_url'' = Str raw \<and> u = unescape_amp raw))
        \<and> (\<forall>k u. (k, u) \<in> set (webp_sizes info) \<longrightarrow>
              (\<exists>raw. js_get (opt (opt item ''common_attr'') ''cover_url_map'') k = Str raw
                    \<and> u = unescape_amp raw))
        \<and> (\<forall>u. webp_long info = Some u \<longrightarrow>
              (\<exists>k. k \<in> set normalSizeKeys \<and> map_of (webp_sizes info) k = Some u))
        \<and> (\<forall>u. u \<in> returned_urls info \<longrightarrow> \<not> sublist escaped_amp u)"
    by (intro allI impI) (rule extractImageUrlInfo_returned_urls)
qed

theorem extractImageUrlInfo_priority_and_unescaped_witness:
  "extractImageUrlInfo item_a_b =
     Inr \<lparr>png = None, webp = None, webp_long = Some ''a'',
          webp_sizes = [(''720'', ''a''), (''360'', ''b'')]\<rparr>
   \<and> first_present (url_entry (opt (opt item_a_b ''common_attr'') ''cover_url_map''))
        normalSizeKeys = Some ''a''
   \<and> extractImageUrlInfo item_720_360 =
     Inr \<lparr>png = Some ''https://p/a.png?x=1&y=2'', webp = Some ''https://p/a.webp?x=1&y=2'',
          webp_long = Some ''https://p/720?x=1&y=2'',
          webp_sizes = [(''720'', ''https://p/720?x=1&y=2''), (''360'', ''https://p/360'')]\<rparr>
   \<and> \<not> sublist escaped_amp ''https://p/720?x=1&y=2''"
proof -
  let ?ab = "\<lparr>png = None, webp = None, webp_long = Some ''a'',
          webp_sizes = [(''720'', ''a''), (''360'', ''b'')]\<rparr>"
  let ?full = "\<lparr>png = Some ''https://p/a.png?x=1&y=2'', webp = Some ''https://p/a.webp?x=1&y=2'',
          webp_long = Some ''https://p/720?x=1&y=2'',
          webp_sizes = [(''720'', ''https://p/720?x=1&y=2''), (''360'', ''https://p/360'')]\<rparr>"
  have ab: "extractImageUrlInfo item_a_b = Inr ?ab" by code_simp
  have full: "extractImageUrlInfo item_720_360 = Inr ?full" by code_simp
  have first: "first_present (url_entry (opt (opt item_a_b ''common_attr'') ''cover_url_map''))
        normalSizeKeys = Some ''a''"
    by code_simp
  have "''https://p/720?x=1&y=2'' \<in> returned_urls ?full"
    by (simp add: returned_urls_def)
  moreover from extractImageUrlInfo_priority_and_unescaped [of item_720_360] full
  have "\<forall>u. u \<in> returned_urls ?full \<longrightarrow> \<not> sublist escaped_amp u" by blast
  ultimately have clean: "\<not> sublist escaped_amp ''https://p/720?x=1&y=2''" by blast
  from ab first full clean show ?thesis by (intro conjI)
qed

section \<open>The history id of a submission\<close>

text \<open>
  C6.  The claim holds for the two image functions and fails for the video function on a
  response without \<open>aigc_data\<close>: there \<open>aigc_data.history_record_id\<close> is read without
  \<open>?.\<close>, and the task ends with a \<open>TypeError\<close> where the image functions, on the same
  response, raise the submission-failure exception.
\<close>

theorem video_task_without_aigc_data_raises_type_error:
  "createVideoGenerationTask (history_env (Obj [])) ''m'' ''p'' (text_only 5) [] =
     (Inl TypeError, [Request (video_request_of ''m'' ''p'' (text_only 5) [])])
   \<and> createImageGenerationTask (history_env (Obj [])) ''m'' ''p'' [] =
     (Inl (APIException API_IMAGE_GENERATION_FAILED RecordIdMissing),
      [Request (GenerateImage \<lparr>ip_model = ''m'', ip_prompt = ''p''\<rparr>)])
   \<and> createImageCompositionTask (history_env (Obj [])) ''m'' ''p'' [ImgUrl ''u''] [] =
     (Inl (APIException API_IMAGE_GENERATION_FAILED RecordIdMissing),
      [UploadImageFromUrl ''u'',
       Request (GenerateBlend \<lparr>bp_model = ''m'', bp_prompt = ''p'', bp_imageCount = 1,
                               bp_uploadedImageIds = [''asset:u'']\<rparr>)])"
  by (intro conjI) code_simp+

lemma history_id_of_image_response_cases:
  "\<not> nullish response \<Longrightarrow>
     history_id_of_image_response response tr =
       (if truthy (opt (js_get response ''aigc_data'') ''history_record_id'')
        then (Inr (opt (js_get response ''aigc_data'') ''history_record_id''), tr)
        else (Inl (APIException API_IMAGE_GENERATION_FAILED RecordIdMissing), tr))"
  by (simp add: history_id_of_image_response_def destructure_aigc_data_def bind_io_def
      return_io_def throw_io_def Let_def)

lemma history_id_of_video_response_cases:
  "\<not> nullish response \<Longrightarrow> \<not> nullish (js_get response ''aigc_data'') \<Longrightarrow>
     history_id_of_video_response response tr =
       (if truthy (js_get (js_get response ''aigc_data'') ''history_record_id'')
        then (Inr (js_get (js_get response ''aigc_data'') ''history_record_id''), tr)
        else (Inl (APIException API_IMAGE_GENERATION_FAILED RecordIdMissing), tr))"
  by (simp add: history_id_of_video_response_def destructure_aigc_data_def bind_io_def
      return_io_def throw_io_def Let_def)

lemma history_id_of_image_response_truthy:
  "fst (history_id_of_image_response response tr) = Inr h \<Longrightarrow> truthy h"
  by (auto simp: history_id_of_image_response_def destructure_aigc_data_def bind_io_def
      return_io_def throw_io_def Let_def split: if_splits)

lemma history_id_of_video_response_truthy:
  "fst (history_id_of_video_response response tr) = Inr h \<Longrightarrow> truthy h"
  by (auto simp: history_id_of_video_response_def destructure_aigc_data_def bind_io_def
      return_io_def throw_io_def Let_def split: if_splits)

lemma bind_io_result:
  "fst (bind_io m f tr) = Inr h \<Longrightarrow> \<exists>a tr'. m tr = (Inr a, tr') \<and> fst (f a tr') = Inr h"
  by (cases "m tr") (auto simp: bind_io_def split: sum.splits)

text \<open>
  X1.  No task function ever returns a falsy history id: whatever the collaborators answer, an
  id that is returned is truthy.
\<close>

theorem task_functions_return_truthy_ids:
  "(fst (createImageGenerationTask e model prompt tr) = Inr h \<longrightarrow> truthy h)
   \<and> (fst (createImageCompositionTask e model prompt images tr) = Inr h \<longrightarrow> truthy h)
   \<and> (fst (createVideoGenerationTask e model prompt opts tr) = Inr h \<longrightarrow> truthy h)"
proof (intro conjI impI)
  assume "fst (createImageGenerationTask e model prompt tr) = Inr h"
  then show "truthy h"
    unfolding createImageGenerationTask_def
    by (auto dest!: bind_io_result dest: history_id_of_image_response_truthy)
next
  assume "fst (createImageCompositionTask e model prompt images tr) = Inr h"
  then show "truthy h"
    unfolding createImageCompositionTask_def
    by (auto dest!: bind_io_result dest: history_id_of_image_response_truthy)
next
  assume "fst (createVideoGenerationTask e model prompt opts tr) = Inr h"
  then show "truthy h"
    unfolding createVideoGenerationTask_def Let_def
    by (auto dest!: bind_io_result dest: history_id_of_video_response_truthy)
qed

theorem task_functions_return_truthy_ids_witness:
  "fst (createImageGenerationTask steady_env ''m'' ''p'' []) = Inr (Str ''h1'')
   \<and> fst (createImageCompositionTask steady_env ''m'' ''p'' [ImgUrl ''u''] []) = Inr (Str ''h1'')
   \<and> fst (createVideoGenerationTask steady_env ''m'' ''p'' (text_only 5) []) = Inr (Str ''h1'')
   \<and> truthy (Str ''h1'')"
proof -
  have a: "fst (createImageGenerationTask steady_env ''m'' ''p'' []) = Inr (Str ''h1'')"
    by code_simp
  have b: "fst (createImageCompositionTask steady_env ''m'' ''p'' [ImgUrl ''u''] []) = Inr (Str ''h1'')"
    by code_simp
  have c: "fst (createVideoGenerationTask steady_env ''m'' ''p'' (text_only 5) []) = Inr (Str ''h1'')"
    by code_simp
  from task_functions_return_truthy_ids
         [of steady_env "''m''" "''p''" "[]" "Str ''h1''" "[ImgUrl ''u'']" "text_only 5"] a
  have "truthy (Str ''h1'')" by blast
  with a b c show ?thesis by (intro conjI)
qed

text \<open>
  X2.  What a response without a usable \<open>history_record_id\<close> leads to: the submission-failure
  exception in the image functions, and in the video function too when \<open>aigc_data\<close> is
  there; a \<open>TypeError\<close> in the video function when \<open>aigc_data\<close> is \<open>null\<close> or
  missing.
\<close>

theorem missing_record_id_outcomes:
  "\<not> nullish response \<and> \<not> truthy (opt (js_get response ''aigc_data'') ''history_record_id'') \<longrightarrow>
     fst (history_id_of_image_response response tr) =
       Inl (APIException API_IMAGE_GENERATION_FAILED RecordIdMissing)
     \<and> (\<not> nullish (js_get response ''aigc_data'') \<longrightarrow>
          fst (history_id_of_video_response response tr) =
            Inl (APIException API_IMAGE_GENERATION_FAILED RecordIdMissing))
     \<and> (nullish (js_get response ''aigc_data'') \<longrightarrow>
          fst (history_id_of_video_response response tr) = Inl TypeError)"
proof (intro impI conjI)
  assume h: "\<not> nullish response \<and> \<not> truthy (opt (js_get response ''aigc_data'') ''history_record_id'')"
  then show "fst (history_id_of_image_response response tr) =
       Inl (APIException API_IMAGE_GENERATION_FAILED RecordIdMissing)"
    by (simp add: history_id_of_image_response_cases)
  show "fst (history_id_of_video_response response tr) =
            Inl (APIException API_IMAGE_GENERATION_FAILED RecordIdMissing)"
    if "\<not> nullish (js_get response ''aigc_data'')"
    using h that by (simp add: history_id_of_video_response_cases opt_def)
  show "fst (history_id_of_video_response response tr) = Inl TypeError"
    if "nullish (js_get response ''aigc_data'')"
    using h that
    by (simp add: history_id_of_video_response_def destructure_aigc_data_def bind_io_def
        return_io_def throw_io_def)
qed

theorem missing_record_id_outcomes_witness:
  "\<not> nullish (Obj [(''aigc_data'', Obj [(''history_record_id'', Str [])])])
   \<and> fst (history_id_of_image_response
            (Obj [(''aigc_data'', Obj [(''history_record_id'', Str [])])]) []) =
       Inl (APIException API_IMAGE_GENERATION_FAILED RecordIdMissing)
   \<and> fst (history_id_of_video_response
            (Obj [(''aigc_data'', Obj [(''history_record_id'', Str [])])]) []) =
       Inl (APIException API_IMAGE_GENERATION_FAILED RecordIdMissing)
   \<and> fst (history_id_of_image_response (Obj [(''aigc_data'', Null)]) []) =
       Inl (APIException API_IMAGE_GENERATION_FAILED RecordIdMissing)
   \<and> fst (history_id_of_video_response (Obj [(''aigc_data'', Null)]) []) = Inl TypeError"
proof -
  let ?r1 = "Obj [(''aigc_data'', Obj [(''history_record_id'', Str [])])]"
  let ?r2 = "Obj [(''aigc_data'', Null)]"
  have h1: "\<not> nullish ?r1 \<and> \<not> truthy (opt (js_get ?r1 ''aigc_data'') ''history_record_id'')"
    "\<not> nullish (js_get ?r1 ''aigc_data'')"
    by (simp_all add: opt_def)
  have h2: "\<not> nullish ?r2 \<and> \<not> truthy (opt (js_get ?r2 ''aigc_data'') ''history_record_id'')"
    "nullish (js_get ?r2 ''aigc_data'')"
    by (simp_all add: opt_def)
  from missing_record_id_outcomes [of ?r1 "[]"] missing_record_id_outcomes [of ?r2 "[]"] h1 h2
  show ?thesis by blast
qed

text \<open>X3.  Replacing the escaped ampersand is idempotent.\<close>

theorem unescape_amp_idempotent: "unescape_amp (unescape_amp s) = unescape_amp s"
  by (rule unescape_amp_idem)

end
